(* ===== verification/Prelude.thy ===== *)
theory Prelude
  imports Main "HOL-Library.Sublist"
begin

text \<open>
  Shared vocabulary of the development: the JavaScript string builtins the client calls
  (\<open>String.prototype.toLowerCase\<close>, \<open>split('.')[0]\<close>, \<open>includes\<close>), list
  removal by index (an asynchronous request completing out of order), and the lemma
  collections the component theories feed with their evaluation rules. JavaScript strings
  are modelled as Isabelle strings, whose characters are the code points 0 to 255
  (Latin-1); the case mapping below is the Unicode one restricted to that range.
\<close>

named_theorems js_simps "evaluation rules of the JavaScript builtins"
named_theorems world_simps "frame equations: the fields a handler of the client leaves unchanged"

section \<open>String.prototype.toLowerCase\<close>

definition js_lower_char :: "char \<Rightarrow> char" where
  "js_lower_char c =
     (let n = (of_char c :: nat) in
      if (65 \<le> n \<and> n \<le> 90) \<or> (192 \<le> n \<and> n \<le> 222 \<and> n \<noteq> 215)
      then char_of (n + 32) else c)"

definition to_lower_case :: "string \<Rightarrow> string" where
  "to_lower_case s = map js_lower_char s"

section \<open>s.split(sep)[0]\<close>

text \<open>The first field of \<open>s.split(sep)\<close>: everything before the first separator, or
  the whole string when there is none (\<open>''.split('.')\<close> is \<open>['']\<close>).\<close>

definition split_first :: "char \<Rightarrow> string \<Rightarrow> string" where
  "split_first sep s = takeWhile (\<lambda>c. c \<noteq> sep) s"

section \<open>String.prototype.includes\<close>

definition js_includes :: "string \<Rightarrow> string \<Rightarrow> bool" where
  "js_includes s t = sublist t s"

section \<open>Truthiness of a string or null\<close>

text \<open>\<open>if (s)\<close> for \<open>s\<close> a string or \<open>null\<close>: false for \<open>null\<close> and for the empty
  string.\<close>

definition truthy :: "string option \<Rightarrow> bool" where
  "truthy v = (case v of None \<Rightarrow> False | Some s \<Rightarrow> s \<noteq> [])"

section \<open>Number.prototype.toString on status codes\<close>

text \<open>The decimal digits of a natural number, as a template literal \<open>${n}\<close> prints it.\<close>

fun decimal :: "nat \<Rightarrow> string" where
  "decimal n = (if n < 10 then [char_of (48 + n)] else decimal (n div 10) @ [char_of (48 + n mod 10)])"

text \<open>\<open>Number.prototype.toString\<close> of an integral number: a minus sign, then the decimal
  digits of the magnitude.\<close>

definition js_int_string :: "int \<Rightarrow> string" where
  "js_int_string n = (if n < 0 then CHR ''-'' # decimal (nat (- n)) else decimal (nat n))"

section \<open>Removing the i-th element\<close>

definition drop_nth :: "nat \<Rightarrow> 'a list \<Rightarrow> 'a list" where
  "drop_nth i xs = take i xs @ drop (Suc i) xs"

section \<open>Lemmas\<close>

lemma js_lower_char_code [js_simps]:
  "js_lower_char (CHR ''A'') = CHR ''a''" "js_lower_char (CHR ''Z'') = CHR ''z''"
  "js_lower_char (CHR ''a'') = CHR ''a''"
  by (simp_all add: js_lower_char_def char_of_eq_iff)

lemma of_char_js_lower_char:
  "(of_char (js_lower_char c) :: nat) =
     (let n = of_char c in
      if (65 \<le> n \<and> n \<le> 90) \<or> (192 \<le> n \<and> n \<le> 222 \<and> n \<noteq> 215) then n + 32 else n)"
proof -
  have "(of_char c :: nat) < 256" using of_char_mod_256 [of c]
    by (metis mod_less_divisor zero_less_numeral)
  then show ?thesis by (auto simp: js_lower_char_def Let_def)
qed

lemma js_lower_char_idem [simp]: "js_lower_char (js_lower_char c) = js_lower_char c"
proof -
  have "(of_char (js_lower_char (js_lower_char c)) :: nat) = of_char (js_lower_char c)"
    by (simp add: of_char_js_lower_char Let_def)
  then show ?thesis by simp
qed

lemma to_lower_case_idem [simp]: "to_lower_case (to_lower_case s) = to_lower_case s"
  by (simp add: to_lower_case_def comp_def)

lemma length_to_lower_case [simp]: "length (to_lower_case s) = length s"
  by (simp add: to_lower_case_def)

lemma to_lower_case_simps [js_simps]:
  "to_lower_case [] = []" "to_lower_case (c # s) = js_lower_char c # to_lower_case s"
  "to_lower_case (s @ t) = to_lower_case s @ to_lower_case t"
  by (simp_all add: to_lower_case_def)

lemma truthy_simps [simp, js_simps]:
  "truthy None = False" "truthy (Some s) = (s \<noteq> [])"
  by (simp_all add: truthy_def)

declare decimal.simps [simp del]

lemma decimal_not_Nil [simp]: "decimal n \<noteq> []"
  by (subst decimal.simps) simp

lemma includes_Nil [simp]: "js_includes s []"
  by (simp add: js_includes_def)

lemma includes_trans: "js_includes s t \<Longrightarrow> js_includes t u \<Longrightarrow> js_includes s u"
  unfolding js_includes_def by (rule sublist_order.order_trans)

lemma includes_lower_mono:
  assumes "js_includes s t"
  shows "js_includes (to_lower_case s) (to_lower_case t)"
proof -
  from assms obtain ps ss where "s = ps @ t @ ss"
    by (auto simp: js_includes_def sublist_def)
  then show ?thesis by (simp add: js_includes_def to_lower_case_def)
qed

lemma split_first_no_sep [simp]: "sep \<notin> set (split_first sep s)"
  by (auto simp: split_first_def dest: set_takeWhileD)

lemma split_first_prefix: "prefix (split_first sep s) s"
  by (simp add: split_first_def takeWhile_is_prefix)

lemma length_drop_nth [simp]: "i < length xs \<Longrightarrow> length (drop_nth i xs) = length xs - 1"
  by (simp add: drop_nth_def)

lemma set_drop_nth: "set (drop_nth i xs) \<subseteq> set xs"
  by (auto simp: drop_nth_def dest: in_set_takeD in_set_dropD)

end
