(* ===== verification/Uri.thy ===== *)
theory Uri
  imports Prelude
begin

text \<open>
  \<open>encodeURIComponent\<close>, which \<open>handleLoginRedirect\<close> (AuthContext.jsx, line 21) applies
  to the return address before it embeds it as the \<open>redirection\<close> query parameter, and
  the inverse \<open>decodeURIComponent\<close> that the account service applies to read it back.
  Both are ECMAScript builtins (ECMA-262, 19.2.6), modelled on the strings of the
  development (code points 0--255): an unreserved character is kept, any other is written
  as the \<open>%XX\<close> escapes of its UTF-8 bytes, upper-case hexadecimal. The lemmas show that
  decoding inverts encoding and that an encoded string carries none of the characters that
  delimit a query (\<open>&\<close>, \<open>=\<close>, \<open>#\<close>, \<open>+\<close>, \<open>?\<close>).
\<close>

section \<open>Encoding\<close>

definition uri_unreserved :: "char \<Rightarrow> bool" where
  "uri_unreserved c =
     (let n = (of_char c :: nat)
      in (48 \<le> n \<and> n \<le> 57) \<or> (65 \<le> n \<and> n \<le> 90) \<or> (97 \<le> n \<and> n \<le> 122)
         \<or> c \<in> set ''-_.!~*'()'')"

definition hex_digit :: "nat \<Rightarrow> char" where
  "hex_digit d = (if d < 10 then char_of (48 + d) else char_of (55 + d))"

definition pct_byte :: "nat \<Rightarrow> string" where
  "pct_byte b = [CHR ''%'', hex_digit (b div 16), hex_digit (b mod 16)]"

text \<open>The UTF-8 bytes of a code point below 256: one byte below 128, else two.\<close>

definition utf8_bytes :: "nat \<Rightarrow> nat list" where
  "utf8_bytes n = (if n < 128 then [n] else [192 + n div 64, 128 + n mod 64])"

definition encode_char :: "char \<Rightarrow> string" where
  "encode_char c =
     (if uri_unreserved c then [c] else concat (map pct_byte (utf8_bytes (of_char c))))"

definition encode_uri_component :: "string \<Rightarrow> string" where
  "encode_uri_component s = concat (map encode_char s)"

section \<open>Decoding\<close>

definition hex_val :: "char \<Rightarrow> nat option" where
  "hex_val c =
     (let n = (of_char c :: nat)
      in if 48 \<le> n \<and> n \<le> 57 then Some (n - 48)
         else if 65 \<le> n \<and> n \<le> 70 then Some (n - 55)
         else if 97 \<le> n \<and> n \<le> 102 then Some (n - 87)
         else None)"

definition hex_byte :: "char \<Rightarrow> char \<Rightarrow> nat option" where
  "hex_byte h l =
     (case (hex_val h, hex_val l) of
        (Some a, Some b) \<Rightarrow> Some (16 * a + b)
      | _ \<Rightarrow> None)"

fun decode_uri_component :: "string \<Rightarrow> string option" where
  "decode_uri_component [] = Some []"
| "decode_uri_component (c # s) =
     (if c \<noteq> CHR ''%'' then map_option (Cons c) (decode_uri_component s)
      else case s of
        h1 # h2 # rest \<Rightarrow>
          (case hex_byte h1 h2 of
             None \<Rightarrow> None
           | Some b \<Rightarrow>
               if b < 128 then map_option (Cons (char_of b)) (decode_uri_component rest)
               else if b = 194 \<or> b = 195 then
                 (case rest of
                    p # h3 # h4 # rest' \<Rightarrow>
                      if p \<noteq> CHR ''%'' then None
                      else (case hex_byte h3 h4 of
                              None \<Rightarrow> None
                            | Some b2 \<Rightarrow>
                                if 128 \<le> b2 \<and> b2 < 192
                                then map_option (Cons (char_of ((b - 192) * 64 + (b2 - 128))))
                                       (decode_uri_component rest')
                                else None)
                  | _ \<Rightarrow> None)
               else None)
      | _ \<Rightarrow> None)"

section \<open>Lemmas\<close>

lemma of_char_less_256 [simp]: "(of_char c :: nat) < 256"
  using of_char_mod_256 [of c] by (metis mod_less_divisor zero_less_numeral)

lemma hex_val_hex_digit [simp]: "d < 16 \<Longrightarrow> hex_val (hex_digit d) = Some d"
  by (simp add: hex_digit_def hex_val_def Let_def)

lemma hex_digit_unreserved: "d < 16 \<Longrightarrow> uri_unreserved (hex_digit d)"
  by (simp add: hex_digit_def uri_unreserved_def Let_def)

lemma hex_byte_pct [simp]:
  "b < 256 \<Longrightarrow> hex_byte (hex_digit (b div 16)) (hex_digit (b mod 16)) = Some b"
  by (simp add: hex_byte_def)

lemma percent_reserved [simp]: "\<not> uri_unreserved (CHR ''%'')"
  by (simp add: uri_unreserved_def)

text \<open>Decoding one encoded character: the three cases of \<open>encode_char\<close>.\<close>

lemma decode_encode_char:
  "decode_uri_component (encode_char c @ rest) = map_option (Cons c) (decode_uri_component rest)"
proof -
  define n where "n = (of_char c :: nat)"
  have n256: "n < 256" by (simp add: n_def)
  consider "uri_unreserved c" | "\<not> uri_unreserved c" "n < 128" | "\<not> uri_unreserved c" "128 \<le> n"
    by linarith
  then show ?thesis
  proof cases
    case 1
    then have "c \<noteq> CHR ''%''" by auto
    with 1 show ?thesis by (simp add: encode_char_def)
  next
    case 2
    then have "encode_char c = pct_byte n"
      by (simp add: encode_char_def utf8_bytes_def n_def)
    moreover have "char_of n = c" by (simp add: n_def)
    ultimately show ?thesis using 2 n256 by (simp add: pct_byte_def)
  next
    case 3
    let ?b1 = "192 + n div 64" and ?b2 = "128 + n mod 64"
    have e: "encode_char c = pct_byte ?b1 @ pct_byte ?b2"
      using 3 by (simp add: encode_char_def utf8_bytes_def n_def)
    have b1: "?b1 = 194 \<or> ?b1 = 195" "?b1 < 256" "\<not> ?b1 < 128"
      using 3 n256 by linarith+
    have b2: "128 \<le> ?b2" "?b2 < 192" "?b2 < 256" by simp_all
    have "(?b1 - 192) * 64 + (?b2 - 128) = n" by simp
    then have "char_of ((?b1 - 192) * 64 + (?b2 - 128)) = c" by (simp add: n_def)
    then show ?thesis using e b1 b2 by (simp add: pct_byte_def del: hex_byte_pct add: hex_byte_pct)
  qed
qed

lemma pct_byte_chars:
  "b < 256 \<Longrightarrow> x \<in> set (pct_byte b) \<Longrightarrow> uri_unreserved x \<or> x = CHR ''%''"
  by (auto simp: pct_byte_def intro!: hex_digit_unreserved)

lemma utf8_bytes_less: "n < 256 \<Longrightarrow> b \<in> set (utf8_bytes n) \<Longrightarrow> b < 256"
  by (auto simp: utf8_bytes_def split: if_splits)

lemma encode_char_chars: "x \<in> set (encode_char c) \<Longrightarrow> uri_unreserved x \<or> x = CHR ''%''"
  by (auto simp: encode_char_def split: if_splits
      dest: pct_byte_chars [OF utf8_bytes_less [OF of_char_less_256]])

lemma decode_encode_uri_component [simp]:
  "decode_uri_component (encode_uri_component s) = Some s"
  by (induction s) (simp_all add: encode_uri_component_def decode_encode_char)

lemma encode_uri_component_chars:
  "x \<in> set (encode_uri_component s) \<Longrightarrow> uri_unreserved x \<or> x = CHR ''%''"
  by (auto simp: encode_uri_component_def dest: encode_char_chars)

lemma encode_uri_component_no_delimiters:
  "set (encode_uri_component s) \<inter> set ''&#=+?'' = {}"
proof -
  have "\<not> uri_unreserved x" if "x \<in> set ''&#=+?''" for x
    using that by (auto simp: uri_unreserved_def)
  then show ?thesis by (fastforce dest: encode_uri_component_chars)
qed

end
