(* ===== verification/Session.thy ===== *)
theory Session
  imports Prelude Uri
begin

text \<open>
  The session manager of \<^verbatim>\<open>src/src/contexts/AuthContext.jsx\<close> (\<open>AuthProvider\<close>).
  Its React state (\<open>useState\<close> hooks, lines 8--15) is the record \<open>auth_state\<close>; the
  browser it acts on (localStorage, \<open>window.location\<close>, the intervals armed by
  \<open>setInterval\<close>, the refresh requests in flight) extends it to the record \<open>world\<close>.
  Each handler is a function on \<open>world\<close>; a handler that can throw (\<open>jwtDecode\<close> on a
  malformed token) returns \<open>Inl\<close> with the error and the world at the throw point, since
  the writes made before the throw (localStorage) persist. The asynchronous
  \<open>fetchAccessToken\<close> is split into the request (\<open>fetch_access_token\<close>, which queues
  the POST) and its completion (\<open>fetch_access_token_done\<close>), so that responses may
  arrive in any order and after a logout. \<open>jwtDecode\<close> is a library function: it is a
  parameter \<open>decode\<close> of the environment, \<open>None\<close> being its exception.
\<close>

section \<open>Data\<close>

datatype js_error = InvalidTokenError

record claims =
  claim_username :: string
  claim_email :: string
  claim_user_id :: int

type_synonym jwt_decode = "string \<Rightarrow> claims option"
type_synonym store = "string \<rightharpoonup> string"

record location =
  pathname :: string
  search :: "(string \<times> string) list"

text \<open>The outcome of the POST to the token refresh endpoint: axios resolves with
  \<open>response.data.access\<close>, or rejects (network error or non-2xx status).\<close>

datatype refresh_response = Refreshed string | RefreshFailed

record auth_state =
  is_authenticated :: bool
  username :: string
  email :: string
  user_id :: "int option"
  refresh_token :: string
  access_token :: string
  is_loading :: bool

record world = auth_state +
  storage :: store
  location :: location
  timers :: "string list"
  inflight :: "string list"
  navigation :: "string option"
  crashed :: bool
  mounts :: nat

text \<open>The environment of a run: the token decoder, the origin of the page, and whether the
  tree is rendered under \<open>StrictMode\<close> in development, where React runs every effect of a
  fresh mount twice (\<^verbatim>\<open>src/src/main.jsx\<close> wraps the app in \<open>StrictMode\<close>).\<close>

record env =
  decode :: jwt_decode
  origin :: string
  strict_mode :: bool

section \<open>Operations\<close>

text \<open>\<open>new URLSearchParams(window.location.search).get(k)\<close>: the first value of \<open>k\<close>.\<close>

definition url_param :: "(string \<times> string) list \<Rightarrow> string \<Rightarrow> string option" where
  "url_param ps k = map_of ps k"

definition set_identity :: "claims \<Rightarrow> world \<Rightarrow> world" where
  "set_identity c w = w\<lparr>username := claim_username c, email := claim_email c,
     user_id := Some (claim_user_id c), is_authenticated := True\<rparr>"

definition handle_redirect :: "jwt_decode \<Rightarrow> world \<Rightarrow> (js_error \<times> world) + world" where
  "handle_redirect dec w =
     (case url_param (search (location w)) ''refresh_token'' of
        None \<Rightarrow> Inr w
      | Some token \<Rightarrow>
          if token = [] then Inr w
          else
            (let w1 = w\<lparr>refresh_token := token,
                        storage := (storage w)(''refresh_token'' \<mapsto> token)\<rparr>
             in case dec token of
                  None \<Rightarrow> Inl (InvalidTokenError, w1)
                | Some c \<Rightarrow>
                    Inr ((set_identity c w1)\<lparr>location := \<lparr>pathname = ''/'', search = []\<rparr>\<rparr>)))"

definition fetch_access_token :: "string \<Rightarrow> world \<Rightarrow> world" where
  "fetch_access_token token w = w\<lparr>inflight := inflight w @ [token]\<rparr>"

definition handle_logout :: "world \<Rightarrow> world" where
  "handle_logout w = w\<lparr>is_authenticated := False, username := [], email := [],
     user_id := None, refresh_token := [], access_token := [],
     storage := ((storage w)(''refresh_token'' := None))(''access_token'' := None)\<rparr>"

fun fetch_access_token_done :: "refresh_response \<Rightarrow> world \<Rightarrow> world" where
  "fetch_access_token_done (Refreshed a) w =
     w\<lparr>access_token := a, storage := (storage w)(''access_token'' \<mapsto> a)\<rparr>"
| "fetch_access_token_done RefreshFailed w = handle_logout w"

definition setup_token_renewal :: "string \<Rightarrow> world \<Rightarrow> world" where
  "setup_token_renewal token w = w\<lparr>timers := timers w @ [token]\<rparr>"

text \<open>Lines 79--92: resuming the session from the refresh token in localStorage (which
  \<open>handleRedirect\<close> has just written when the address carried one).\<close>

definition restore_session :: "jwt_decode \<Rightarrow> world \<Rightarrow> (js_error \<times> world) + world" where
  "restore_session dec w =
     (case storage w ''refresh_token'' of
        None \<Rightarrow> Inr w
      | Some t \<Rightarrow>
          if t = [] then Inr w
          else
            (let w1 = w\<lparr>refresh_token := t\<rparr>
             in case dec t of
                  None \<Rightarrow> Inl (InvalidTokenError, w1)
                | Some c \<Rightarrow> Inr (setup_token_renewal t (fetch_access_token t (set_identity c w1)))))"

text \<open>The effect of lines 76--95: \<open>handleRedirect\<close>, then the stored token, then
  \<open>setIsLoading(false)\<close>; an exception skips the rest of the effect.\<close>

definition auth_effect :: "jwt_decode \<Rightarrow> world \<Rightarrow> (js_error \<times> world) + world" where
  "auth_effect dec w0 =
     (case handle_redirect dec w0 of
        Inl e \<Rightarrow> Inl e
      | Inr w \<Rightarrow>
          (case restore_session dec w of
             Inl e \<Rightarrow> Inl e
           | Inr w' \<Rightarrow> Inr (w'\<lparr>is_loading := False\<rparr>)))"

definition login_url :: "string \<Rightarrow> string" where
  "login_url orig =
     ''https://accounts.dovuchcha.uz/login'' @ ''?redirection='' @ encode_uri_component (orig @ ''/'')"

definition handle_login_redirect :: "string \<Rightarrow> world \<Rightarrow> world" where
  "handle_login_redirect orig w = w\<lparr>navigation := Some (login_url orig)\<rparr>"

section \<open>The provider in the browser\<close>

text \<open>A page load: React state starts from the \<open>useState\<close> initial values (lines 8--15);
  only localStorage and the address survive from before.\<close>

definition boot :: "store \<Rightarrow> location \<Rightarrow> world" where
  "boot st loc =
     \<lparr>is_authenticated = False, username = [], email = [], user_id = None,
      refresh_token = [], access_token = [], is_loading = True,
      storage = st, location = loc, timers = [], inflight = [], navigation = None,
      crashed = False, mounts = 0\<rparr>"

text \<open>Running the effect of lines 76--95 once. An exception thrown by the effect is not
  caught by any error boundary (main.jsx has none), so React unmounts the tree: the world
  keeps what was written before the throw and is marked \<open>crashed\<close>.\<close>

definition mount :: "jwt_decode \<Rightarrow> world \<Rightarrow> world" where
  "mount dec w =
     (case auth_effect dec (w\<lparr>mounts := Suc (mounts w)\<rparr>) of
        Inl (_, w') \<Rightarrow> w'\<lparr>crashed := True\<rparr>
      | Inr w' \<Rightarrow> w')"

text \<open>What can happen next in the browser. \<open>Mount\<close> runs the effect (once, or twice
  under StrictMode); \<open>Tick i\<close> fires the i-th interval armed by \<open>setupTokenRenewal\<close>;
  \<open>Response i r\<close> completes the i-th refresh request in flight, in any order;
  \<open>Logout\<close> and \<open>LoginClick\<close> are the buttons of Home and Profile, which exist only
  once the provider renders its children (\<open>!isLoading\<close>, line 114).\<close>

datatype event = Mount | Tick nat | Response nat refresh_response | Logout | LoginClick

definition mount_limit :: "env \<Rightarrow> nat" where
  "mount_limit e = (if strict_mode e then 2 else 1)"

fun app_step :: "env \<Rightarrow> event \<Rightarrow> world \<Rightarrow> world" where
  "app_step e Mount w =
     (if crashed w \<or> mount_limit e \<le> mounts w then w else mount (decode e) w)"
| "app_step e (Tick i) w =
     (if i < length (timers w) then fetch_access_token (timers w ! i) w else w)"
| "app_step e (Response i r) w =
     (if i < length (inflight w)
      then fetch_access_token_done r (w\<lparr>inflight := drop_nth i (inflight w)\<rparr>) else w)"
| "app_step e Logout w =
     (if crashed w \<or> is_loading w then w else handle_logout w)"
| "app_step e LoginClick w =
     (if crashed w \<or> is_loading w then w else handle_login_redirect (origin e) w)"

fun run :: "env \<Rightarrow> event list \<Rightarrow> world \<Rightarrow> world" where
  "run e [] w = w"
| "run e (ev # evs) w = run e evs (app_step e ev w)"

inductive reach :: "env \<Rightarrow> world \<Rightarrow> bool" for e where
  boot: "reach e (boot st loc)"
| step: "reach e w \<Longrightarrow> reach e (app_step e ev w)"

section \<open>Invariants and the abstract session\<close>

abbreviation redirect_param :: "world \<Rightarrow> string option" where
  "redirect_param w \<equiv> url_param (search (location w)) ''refresh_token''"

text \<open>The identity fields are those the decoder reads from the refresh token.\<close>

definition identity_matches :: "jwt_decode \<Rightarrow> world \<Rightarrow> bool" where
  "identity_matches dec w =
     (case dec (refresh_token w) of
        None \<Rightarrow> False
      | Some c \<Rightarrow> username w = claim_username c \<and> email w = claim_email c
                  \<and> user_id w = Some (claim_user_id c))"

text \<open>The data-model invariant of spec section 3: authenticated exactly when a refresh
  token is held, which is then the stored one and the source of the identity.\<close>

definition session_inv :: "jwt_decode \<Rightarrow> world \<Rightarrow> bool" where
  "session_inv dec w \<longleftrightarrow>
     (is_authenticated w \<longleftrightarrow> refresh_token w \<noteq> []) \<and>
     (is_authenticated w \<longrightarrow>
        storage w ''refresh_token'' = Some (refresh_token w) \<and> identity_matches dec w)"

definition resource_inv :: "env \<Rightarrow> world \<Rightarrow> bool" where
  "resource_inv e w \<longleftrightarrow>
     length (timers w) \<le> mounts w \<and> mounts w \<le> mount_limit e \<and>
     set (inflight w) \<subseteq> set (timers w) \<and> list_all (\<lambda>t. decode e t \<noteq> None) (timers w)"

definition mounted_inv :: "jwt_decode \<Rightarrow> world \<Rightarrow> bool" where
  "mounted_inv dec w \<longleftrightarrow>
     session_inv dec w \<and>
     (is_loading w \<longrightarrow> mounts w = 0 \<and> \<not> is_authenticated w) \<and>
     (\<not> is_loading w \<longrightarrow> \<not> truthy (redirect_param w)) \<and>
     (\<not> is_loading w \<and> \<not> is_authenticated w \<longrightarrow> \<not> truthy (storage w ''refresh_token''))"

definition world_inv :: "env \<Rightarrow> world \<Rightarrow> bool" where
  "world_inv e w \<longleftrightarrow> resource_inv e w \<and> (\<not> crashed w \<longrightarrow> mounted_inv (decode e) w)"

text \<open>The state machine of spec section 4.1: three phases and the transitions it allows
  within one page load (a stutter step changes no phase).\<close>

datatype phase = Unauthenticated | Initializing | Authenticated

definition phase_of :: "world \<Rightarrow> phase" where
  "phase_of w =
     (if is_loading w then Initializing
      else if is_authenticated w then Authenticated else Unauthenticated)"

inductive spec_step :: "phase \<Rightarrow> phase \<Rightarrow> bool" where
  found: "spec_step Initializing Authenticated"
| not_found: "spec_step Initializing Unauthenticated"
| logout: "spec_step Authenticated Unauthenticated"
| stutter: "spec_step p p"

text \<open>The scenario of spec section 8: token \<open>T1\<close> decodes to alice.\<close>

definition scenario_claims :: claims where
  "scenario_claims = \<lparr>claim_username = ''alice'', claim_email = ''a@x.com'', claim_user_id = 7\<rparr>"

definition scenario_decode :: jwt_decode where
  "scenario_decode t = (if t = ''T1'' then Some scenario_claims else None)"

definition scenario_env :: "bool \<Rightarrow> env" where
  "scenario_env strict =
     \<lparr>decode = scenario_decode, origin = ''https://subdomain.dovuchcha.uz'', strict_mode = strict\<rparr>"

definition home :: location where
  "home = \<lparr>pathname = ''/'', search = []\<rparr>"

definition stored_T1 :: store where
  "stored_T1 = [''refresh_token'' \<mapsto> ''T1'']"

section \<open>Lemmas: the handlers in closed form\<close>

lemma handle_redirect_skip:
  "\<not> truthy (redirect_param w) \<Longrightarrow> handle_redirect dec w = Inr w"
  by (auto simp: handle_redirect_def truthy_def split: option.splits)

lemma handle_redirect_bad:
  "redirect_param w = Some t \<Longrightarrow> t \<noteq> [] \<Longrightarrow> dec t = None \<Longrightarrow>
   handle_redirect dec w =
     Inl (InvalidTokenError, w\<lparr>refresh_token := t, storage := (storage w)(''refresh_token'' \<mapsto> t)\<rparr>)"
  by (simp add: handle_redirect_def)

lemma handle_redirect_good:
  "redirect_param w = Some t \<Longrightarrow> t \<noteq> [] \<Longrightarrow> dec t = Some c \<Longrightarrow>
   handle_redirect dec w =
     Inr ((set_identity c (w\<lparr>refresh_token := t, storage := (storage w)(''refresh_token'' \<mapsto> t)\<rparr>))
            \<lparr>location := \<lparr>pathname = ''/'', search = []\<rparr>\<rparr>)"
  by (simp add: handle_redirect_def)

lemma restore_session_skip:
  "\<not> truthy (storage w ''refresh_token'') \<Longrightarrow> restore_session dec w = Inr w"
  by (auto simp: restore_session_def truthy_def split: option.splits)

lemma restore_session_bad:
  "storage w ''refresh_token'' = Some t \<Longrightarrow> t \<noteq> [] \<Longrightarrow> dec t = None \<Longrightarrow>
   restore_session dec w = Inl (InvalidTokenError, w\<lparr>refresh_token := t\<rparr>)"
  by (simp add: restore_session_def)

lemma restore_session_good:
  "storage w ''refresh_token'' = Some t \<Longrightarrow> t \<noteq> [] \<Longrightarrow> dec t = Some c \<Longrightarrow>
   restore_session dec w =
     Inr (setup_token_renewal t (fetch_access_token t (set_identity c (w\<lparr>refresh_token := t\<rparr>))))"
  by (simp add: restore_session_def)

lemma mount_skip:
  "\<not> truthy (redirect_param w) \<Longrightarrow> \<not> truthy (storage w ''refresh_token'') \<Longrightarrow>
   mount dec w = w\<lparr>mounts := Suc (mounts w), is_loading := False\<rparr>"
  by (simp add: mount_def auth_effect_def handle_redirect_skip restore_session_skip)

lemma mount_bad_redirect:
  "redirect_param w = Some t \<Longrightarrow> t \<noteq> [] \<Longrightarrow> dec t = None \<Longrightarrow>
   mount dec w = w\<lparr>mounts := Suc (mounts w), refresh_token := t,
     storage := (storage w)(''refresh_token'' \<mapsto> t), crashed := True\<rparr>"
  by (simp add: mount_def auth_effect_def handle_redirect_bad)

lemma mount_good_redirect:
  "redirect_param w = Some t \<Longrightarrow> t \<noteq> [] \<Longrightarrow> dec t = Some c \<Longrightarrow>
   mount dec w = (set_identity c (w\<lparr>mounts := Suc (mounts w), refresh_token := t,
     storage := (storage w)(''refresh_token'' \<mapsto> t), location := \<lparr>pathname = ''/'', search = []\<rparr>,
     timers := timers w @ [t], inflight := inflight w @ [t], is_loading := False\<rparr>))"
  by (simp add: mount_def auth_effect_def handle_redirect_good restore_session_def
      set_identity_def fetch_access_token_def setup_token_renewal_def)

lemma mount_bad_stored:
  "\<not> truthy (redirect_param w) \<Longrightarrow> storage w ''refresh_token'' = Some t \<Longrightarrow> t \<noteq> [] \<Longrightarrow>
   dec t = None \<Longrightarrow>
   mount dec w = w\<lparr>mounts := Suc (mounts w), refresh_token := t, crashed := True\<rparr>"
  by (simp add: mount_def auth_effect_def handle_redirect_skip restore_session_bad)

lemma mount_good_stored:
  "\<not> truthy (redirect_param w) \<Longrightarrow> storage w ''refresh_token'' = Some t \<Longrightarrow> t \<noteq> [] \<Longrightarrow>
   dec t = Some c \<Longrightarrow>
   mount dec w = (set_identity c (w\<lparr>mounts := Suc (mounts w), refresh_token := t,
     timers := timers w @ [t], inflight := inflight w @ [t], is_loading := False\<rparr>))"
  by (simp add: mount_def auth_effect_def handle_redirect_skip restore_session_good
      set_identity_def fetch_access_token_def setup_token_renewal_def)

lemma mount_cases:
  obtains (skip) "\<not> truthy (redirect_param w)" "\<not> truthy (storage w ''refresh_token'')"
  | (bad_redirect) t where "redirect_param w = Some t" "t \<noteq> []" "dec t = None"
  | (good_redirect) t c where "redirect_param w = Some t" "t \<noteq> []" "dec t = Some c"
  | (bad_stored) t where "\<not> truthy (redirect_param w)" "storage w ''refresh_token'' = Some t" "t \<noteq> []" "dec t = None"
  | (good_stored) t c where "\<not> truthy (redirect_param w)" "storage w ''refresh_token'' = Some t" "t \<noteq> []" "dec t = Some c"
proof (cases "truthy (redirect_param w)")
  case True
  then obtain t where "redirect_param w = Some t" "t \<noteq> []"
    by (auto simp: truthy_def split: option.splits)
  with that(2,3) show ?thesis by (cases "dec t") auto
next
  case nr: False
  show ?thesis
  proof (cases "truthy (storage w ''refresh_token'')")
    case True
    then obtain t where "storage w ''refresh_token'' = Some t" "t \<noteq> []"
      by (auto simp: truthy_def split: option.splits)
    with nr that(4,5) show ?thesis by (cases "dec t") auto
  next
    case False
    with nr that(1) show ?thesis by blast
  qed
qed

section \<open>Lemmas: the invariants are inductive\<close>

lemma session_inv_set_identity:
  "dec t = Some c \<Longrightarrow> t \<noteq> [] \<Longrightarrow> storage w ''refresh_token'' = Some t \<Longrightarrow>
   session_inv dec (set_identity c (w\<lparr>refresh_token := t\<rparr>))"
  by (simp add: session_inv_def identity_matches_def set_identity_def)

lemma world_inv_boot: "world_inv e (boot st loc)"
  by (simp add: world_inv_def resource_inv_def mounted_inv_def boot_def session_inv_def
      mount_limit_def)

lemma resource_inv_mount:
  assumes "resource_inv e w" and "mounts w < mount_limit e"
  shows "resource_inv e (mount (decode e) w)"
proof (cases rule: mount_cases [where w = w and dec = "decode e"])
  case skip with assms show ?thesis by (simp add: mount_skip resource_inv_def)
next
  case (bad_redirect t) with assms show ?thesis by (simp add: mount_bad_redirect resource_inv_def)
next
  case (good_redirect t c) with assms show ?thesis
    by (auto simp: mount_good_redirect resource_inv_def set_identity_def)
next
  case (bad_stored t) with assms show ?thesis by (simp add: mount_bad_stored resource_inv_def)
next
  case (good_stored t c) with assms show ?thesis
    by (auto simp: mount_good_stored resource_inv_def set_identity_def)
qed

lemma mounted_inv_mount:
  assumes inv: "mounted_inv (decode e) w" and nc: "\<not> crashed (mount (decode e) w)"
  shows "mounted_inv (decode e) (mount (decode e) w)"
proof (cases rule: mount_cases [where w = w and dec = "decode e"])
  case skip
  with inv have "\<not> is_authenticated w"
    by (auto simp: mounted_inv_def session_inv_def truthy_def split: option.splits)
  with inv skip show ?thesis
    by (simp add: mount_skip mounted_inv_def session_inv_def identity_matches_def)
next
  case (bad_redirect t) with nc show ?thesis by (simp add: mount_bad_redirect)
next
  case (good_redirect t c)
  then show ?thesis
    by (simp add: mount_good_redirect mounted_inv_def session_inv_def identity_matches_def
        set_identity_def truthy_def url_param_def)
next
  case (bad_stored t) with nc show ?thesis by (simp add: mount_bad_stored)
next
  case (good_stored t c)
  then show ?thesis
    by (simp add: mount_good_stored mounted_inv_def session_inv_def identity_matches_def
        set_identity_def truthy_def)
qed

text \<open>Frame: the invariant reads only the identity fields, the token, the stored token,
  the loading flag, the mount count and the address.\<close>

lemma mounted_inv_frame:
  assumes "is_authenticated w' = is_authenticated w" "refresh_token w' = refresh_token w"
    "storage w' ''refresh_token'' = storage w ''refresh_token''"
    "username w' = username w" "email w' = email w" "user_id w' = user_id w"
    "is_loading w' = is_loading w" "mounts w' = mounts w" "location w' = location w"
  shows "mounted_inv dec w' = mounted_inv dec w"
  using assms by (simp add: mounted_inv_def session_inv_def identity_matches_def
      split: option.split)

lemma handle_logout_frame [simp, world_simps]:
  "timers (handle_logout w) = timers w" "inflight (handle_logout w) = inflight w"
  "mounts (handle_logout w) = mounts w" "crashed (handle_logout w) = crashed w"
  "is_loading (handle_logout w) = is_loading w" "location (handle_logout w) = location w"
  by (simp_all add: handle_logout_def)

lemma mounted_inv_logout:
  "mounted_inv dec w \<Longrightarrow> mounted_inv dec (handle_logout w)"
  unfolding mounted_inv_def by (simp add: handle_logout_def session_inv_def truthy_def)

lemma world_inv_step:
  assumes "world_inv e w"
  shows "world_inv e (app_step e ev w)"
proof (cases ev)
  case Mount
  show ?thesis
  proof (cases "crashed w \<or> mount_limit e \<le> mounts w")
    case True with Mount assms show ?thesis by simp
  next
    case False
    then have "mounts w < mount_limit e" "\<not> crashed w" by auto
    with assms Mount show ?thesis
      by (simp add: world_inv_def resource_inv_mount mounted_inv_mount)
  qed
next
  case (Tick i)
  have "mounted_inv (decode e) (fetch_access_token t w) = mounted_inv (decode e) w" for t
    by (rule mounted_inv_frame) (simp_all add: fetch_access_token_def)
  with Tick assms show ?thesis
    by (auto simp: world_inv_def resource_inv_def fetch_access_token_def)
next
  case (Response i r)
  let ?w = "w\<lparr>inflight := drop_nth i (inflight w)\<rparr>"
  have sub: "set (drop_nth i (inflight w)) \<subseteq> set (timers w)"
    using assms set_drop_nth [of i "inflight w"] by (auto simp: world_inv_def resource_inv_def)
  have res: "resource_inv e ?w" using assms sub by (simp add: world_inv_def resource_inv_def)
  show ?thesis
  proof (cases r)
    case (Refreshed a)
    have "mounted_inv (decode e) (fetch_access_token_done r ?w) = mounted_inv (decode e) w"
      by (rule mounted_inv_frame) (simp_all add: Refreshed)
    with Response assms res show ?thesis
      by (auto simp: world_inv_def resource_inv_def Refreshed)
  next
    case RefreshFailed
    have "mounted_inv (decode e) ?w = mounted_inv (decode e) w"
      by (rule mounted_inv_frame) simp_all
    with Response assms res show ?thesis
      by (auto simp: world_inv_def RefreshFailed mounted_inv_logout resource_inv_def)
  qed
next
  case Logout
  with assms show ?thesis
    by (auto simp: world_inv_def resource_inv_def mounted_inv_logout)
next
  case LoginClick
  have "mounted_inv (decode e) (handle_login_redirect (origin e) w) = mounted_inv (decode e) w"
    by (rule mounted_inv_frame) (simp_all add: handle_login_redirect_def)
  with LoginClick assms show ?thesis
    by (auto simp: world_inv_def resource_inv_def handle_login_redirect_def)
qed

lemma reach_world_inv: "reach e w \<Longrightarrow> world_inv e w"
  by (induction rule: reach.induct) (simp_all add: world_inv_boot world_inv_step)

section \<open>Lemmas: shared steps of the session proofs\<close>

lemmas mount_defs = mount_def auth_effect_def handle_redirect_def restore_session_def
  set_identity_def fetch_access_token_def setup_token_renewal_def boot_def

lemmas scenario_defs = scenario_env_def scenario_decode_def scenario_claims_def home_def
  stored_T1_def url_param_def mount_limit_def

lemma reach_run: "reach e w \<Longrightarrow> reach e (run e evs w)"
  by (induction evs arbitrary: w) (auto intro: reach.step)

lemma loaded_if_timer:
  assumes "world_inv e w" "\<not> crashed w" "timers w \<noteq> []"
  shows "\<not> is_loading w"
  using assms by (auto simp: world_inv_def resource_inv_def mounted_inv_def)

lemma crashed_fetch_access_token_done [simp]:
  "crashed (fetch_access_token_done r w) = crashed w"
  by (cases r) simp_all

lemma crashed_app_step: "crashed w \<Longrightarrow> crashed (app_step e ev w)"
  by (cases ev) (simp_all add: handle_login_redirect_def fetch_access_token_def)

lemma phase_mount:
  assumes inv: "world_inv e w" and nc: "\<not> crashed w" and nc': "\<not> crashed (mount (decode e) w)"
  shows "\<not> is_loading (mount (decode e) w) \<and>
    (\<not> is_loading w \<longrightarrow> is_authenticated (mount (decode e) w) = is_authenticated w)"
proof -
  from inv nc have m: "mounted_inv (decode e) w" by (simp add: world_inv_def)
  show ?thesis
  proof (cases rule: mount_cases [where w = w and dec = "decode e"])
    case skip then show ?thesis by (simp add: mount_skip)
  next
    case (bad_redirect t) with nc' show ?thesis by (simp add: mount_bad_redirect)
  next
    case (good_redirect t c)
    with m have "is_loading w" by (auto simp: mounted_inv_def truthy_def)
    with good_redirect show ?thesis by (simp add: mount_good_redirect set_identity_def)
  next
    case (bad_stored t) with nc' show ?thesis by (simp add: mount_bad_stored)
  next
    case (good_stored t c)
    with m have "\<not> is_loading w \<longrightarrow> is_authenticated w" by (auto simp: mounted_inv_def truthy_def)
    with good_stored show ?thesis by (simp add: mount_good_stored set_identity_def)
  qed
qed

section \<open>Properties of the session manager\<close>

text \<open>C1. In every reachable world where the provider has not crashed, the session is consistent: authenticated exactly when a refresh token is held, and then that token is the one in localStorage and the username, email and id are the claims it decodes to (spec section 3).\<close>

theorem reachable_session_consistent:
  assumes "reach e w" and "\<not> crashed w"
  shows "session_inv (decode e) w"
  using reach_world_inv [OF assms(1)] assms(2) by (simp add: world_inv_def mounted_inv_def)

theorem reachable_session_consistent_witness:
  "reach (scenario_env False) (app_step (scenario_env False) Mount (boot stored_T1 home))
   \<and> \<not> crashed (app_step (scenario_env False) Mount (boot stored_T1 home))
   \<and> session_inv scenario_decode (app_step (scenario_env False) Mount (boot stored_T1 home))"
proof -
  let ?e = "scenario_env False" and ?w = "app_step (scenario_env False) Mount (boot stored_T1 home)"
  have r: "reach ?e ?w" by (rule reach.step [OF reach.boot])
  have nc: "\<not> crashed ?w" by (simp add: mount_defs scenario_defs)
  show ?thesis using reachable_session_consistent [OF r nc] r nc by (simp add: scenario_defs)
qed

text \<open>C2. Refinement: every step of the provider that does not crash it is a transition of the three-phase machine of spec section 4.1 (Initializing to Authenticated or Unauthenticated, Authenticated to Unauthenticated) or leaves the phase unchanged; in particular no step of one page load takes an unauthenticated session back to authenticated.\<close>

theorem session_refines_spec_phases:
  assumes "reach e w" and "\<not> crashed (app_step e ev w)"
  shows "spec_step (phase_of w) (phase_of (app_step e ev w))"
proof -
  have inv: "world_inv e w" by (rule reach_world_inv [OF assms(1)])
  have nc: "\<not> crashed w" using assms(2) crashed_app_step by blast
  show ?thesis
  proof (cases ev)
    case Mount
    show ?thesis
    proof (cases "mount_limit e \<le> mounts w")
      case True with Mount nc show ?thesis by (simp add: spec_step.stutter)
    next
      case False
      with Mount nc assms(2) have nc': "\<not> crashed (mount (decode e) w)" by simp
      from phase_mount [OF inv nc nc'] False Mount nc show ?thesis
        by (cases "is_loading w") (auto simp: phase_of_def intro: spec_step.intros)
    qed
  next
    case (Tick i)
    then show ?thesis by (simp add: phase_of_def fetch_access_token_def spec_step.stutter)
  next
    case (Response i r)
    show ?thesis
    proof (cases "i < length (inflight w)")
      case True
      with inv have "timers w \<noteq> []" by (auto simp: world_inv_def resource_inv_def)
      with inv nc have nl: "\<not> is_loading w" by (rule loaded_if_timer)
      show ?thesis
      proof (cases r)
        case (Refreshed a) with Response True show ?thesis by (simp add: phase_of_def spec_step.stutter)
      next
        case RefreshFailed
        with Response True nl show ?thesis
          by (auto simp: handle_logout_def phase_of_def intro: spec_step.intros)
      qed
    next
      case False with Response show ?thesis by (simp add: spec_step.stutter)
    qed
  next
    case Logout
    with nc show ?thesis
      by (auto simp: handle_logout_def phase_of_def intro: spec_step.intros)
  next
    case LoginClick
    then show ?thesis by (simp add: handle_login_redirect_def phase_of_def spec_step.stutter)
  qed
qed

theorem session_refines_spec_phases_witness:
  "reach (scenario_env False) (boot stored_T1 home)
   \<and> \<not> crashed (app_step (scenario_env False) Mount (boot stored_T1 home))
   \<and> spec_step (phase_of (boot stored_T1 home))
        (phase_of (app_step (scenario_env False) Mount (boot stored_T1 home)))"
proof -
  have r: "reach (scenario_env False) (boot stored_T1 home)" by (rule reach.boot)
  have nc: "\<not> crashed (app_step (scenario_env False) Mount (boot stored_T1 home))"
    by (simp add: mount_defs scenario_defs)
  show ?thesis using session_refines_spec_phases [OF r nc] r nc by simp
qed

text \<open>C3. Resumed session (spec section 8, first property): with no redirect parameter and a decodable token in localStorage, the mount effect ends authenticated, with the identity of the token, one refresh request posted and one renewal interval armed.\<close>

theorem mount_restores_stored_session:
  assumes "url_param (search loc) ''refresh_token'' = None"
    and "st ''refresh_token'' = Some t" and "t \<noteq> []" and "dec t = Some c"
  shows "let w = mount dec (boot st loc) in
     is_authenticated w \<and> username w = claim_username c \<and> email w = claim_email c
     \<and> user_id w = Some (claim_user_id c) \<and> refresh_token w = t \<and> \<not> crashed w
     \<and> inflight w = [t] \<and> timers w = [t]"
  using assms by (simp add: mount_defs)

theorem mount_restores_stored_session_witness:
  "let w = mount scenario_decode (boot stored_T1 home) in
     is_authenticated w \<and> username w = ''alice'' \<and> email w = ''a@x.com''
     \<and> user_id w = Some 7 \<and> refresh_token w = ''T1'' \<and> \<not> crashed w
     \<and> inflight w = [''T1''] \<and> timers w = [''T1'']"
  using mount_restores_stored_session [where loc = home and st = stored_T1 and t = "''T1''"
      and dec = scenario_decode and c = scenario_claims]
  by (simp add: scenario_defs)

text \<open>C4. Fresh login (spec section 8, second property): a decodable token in the refresh_token query parameter is persisted to localStorage, the session is authenticated with its claims, and the address no longer carries the parameter.\<close>

theorem mount_consumes_redirect_token:
  assumes "url_param (search loc) ''refresh_token'' = Some t" and "t \<noteq> []" and "dec t = Some c"
  shows "let w = mount dec (boot st loc) in
     storage w ''refresh_token'' = Some t \<and> is_authenticated w \<and> username w = claim_username c
     \<and> email w = claim_email c \<and> user_id w = Some (claim_user_id c)
     \<and> url_param (search (location w)) ''refresh_token'' = None \<and> pathname (location w) = ''/''
     \<and> inflight w = [t] \<and> timers w = [t] \<and> \<not> crashed w"
  using assms by (simp add: mount_defs url_param_def)

theorem mount_consumes_redirect_token_witness:
  "let w = mount scenario_decode (boot Map.empty \<lparr>pathname = ''/'', search = [(''refresh_token'', ''T1'')]\<rparr>) in
     storage w ''refresh_token'' = Some ''T1'' \<and> is_authenticated w \<and> username w = ''alice''
     \<and> email w = ''a@x.com'' \<and> user_id w = Some 7
     \<and> url_param (search (location w)) ''refresh_token'' = None \<and> pathname (location w) = ''/''
     \<and> inflight w = [''T1''] \<and> timers w = [''T1''] \<and> \<not> crashed w"
  using mount_consumes_redirect_token [where loc = "\<lparr>pathname = ''/'', search = [(''refresh_token'', ''T1'')]\<rparr>"
      and t = "''T1''" and dec = scenario_decode and c = scenario_claims and st = Map.empty]
  by (simp add: scenario_defs)

text \<open>C5. A successful renewal stores the returned access token in memory and in localStorage and changes neither the authentication flag nor the refresh token.\<close>

theorem renewal_success_stores_access_token:
  assumes "i < length (inflight w)"
  shows "let w' = app_step e (Response i (Refreshed a)) w in
     access_token w' = a \<and> storage w' ''access_token'' = Some a
     \<and> is_authenticated w' = is_authenticated w \<and> refresh_token w' = refresh_token w
     \<and> storage w' ''refresh_token'' = storage w ''refresh_token''"
  using assms by simp

theorem renewal_success_stores_access_token_witness:
  "let w = mount scenario_decode (boot stored_T1 home) in
     0 < length (inflight w) \<and>
     (let w' = app_step (scenario_env False) (Response 0 (Refreshed ''A1'')) w in
        access_token w' = ''A1'' \<and> storage w' ''access_token'' = Some ''A1''
        \<and> is_authenticated w' = is_authenticated w \<and> refresh_token w' = refresh_token w
        \<and> storage w' ''refresh_token'' = storage w ''refresh_token'')"
proof -
  let ?w = "mount scenario_decode (boot stored_T1 home)"
  have h: "0 < length (inflight ?w)" by (simp add: mount_defs scenario_defs)
  show ?thesis
    using renewal_success_stores_access_token [OF h, of "scenario_env False" "''A1''"] h
    by (simp add: Let_def)
qed

text \<open>C6. A failed renewal logs out: the session is unauthenticated and both credentials are gone from memory and from localStorage (fail closed, no retry).\<close>

theorem renewal_failure_clears_credentials:
  assumes "i < length (inflight w)"
  shows "let w' = app_step e (Response i RefreshFailed) w in
     \<not> is_authenticated w' \<and> refresh_token w' = [] \<and> access_token w' = []
     \<and> username w' = [] \<and> user_id w' = None
     \<and> storage w' ''refresh_token'' = None \<and> storage w' ''access_token'' = None"
  using assms by (simp add: handle_logout_def)

theorem renewal_failure_clears_credentials_witness:
  "let w = mount scenario_decode (boot stored_T1 home) in
     0 < length (inflight w) \<and>
     (let w' = app_step (scenario_env False) (Response 0 RefreshFailed) w in
        \<not> is_authenticated w' \<and> refresh_token w' = [] \<and> access_token w' = []
        \<and> username w' = [] \<and> user_id w' = None
        \<and> storage w' ''refresh_token'' = None \<and> storage w' ''access_token'' = None)"
proof -
  let ?w = "mount scenario_decode (boot stored_T1 home)"
  have h: "0 < length (inflight ?w)" by (simp add: mount_defs scenario_defs)
  show ?thesis
    using renewal_failure_clears_credentials [OF h, of "scenario_env False"] h
    by (simp add: Let_def)
qed

text \<open>Logging out twice ends in the same world as logging out once.\<close>

theorem logout_idempotent:
  "app_step e Logout (app_step e Logout w) = app_step e Logout w"
  by (simp add: handle_logout_def)

text \<open>C8. Outside StrictMode, at most one renewal interval is ever armed in a page load, whatever the sequence of events.\<close>

theorem production_single_timer:
  assumes "reach e w" and "\<not> strict_mode e"
  shows "length (timers w) \<le> 1"
  using reach_world_inv [OF assms(1)] assms(2)
  by (simp add: world_inv_def resource_inv_def mount_limit_def)

theorem production_single_timer_witness:
  "reach (scenario_env False) (run (scenario_env False) [Mount, Mount] (boot stored_T1 home))
   \<and> \<not> strict_mode (scenario_env False)
   \<and> length (timers (run (scenario_env False) [Mount, Mount] (boot stored_T1 home))) \<le> 1"
proof -
  have r: "reach (scenario_env False) (run (scenario_env False) [Mount, Mount] (boot stored_T1 home))"
    by (rule reach_run [OF reach.boot])
  have s: "\<not> strict_mode (scenario_env False)" by (simp add: scenario_env_def)
  show ?thesis using production_single_timer [OF r s] r s by simp
qed

text \<open>C9. Under StrictMode (main.jsx) the effect runs twice and, having no cleanup function, arms a second renewal interval: two intervals for one session, against spec section 5.\<close>

theorem strict_mode_arms_two_timers:
  assumes "strict_mode e" and "url_param (search loc) ''refresh_token'' = None"
    and "st ''refresh_token'' = Some t" and "t \<noteq> []" and "decode e t = Some c"
  shows "timers (run e [Mount, Mount] (boot st loc)) = [t, t]"
  using assms by (simp add: mount_defs mount_limit_def)

theorem strict_mode_arms_two_timers_witness:
  "timers (run (scenario_env True) [Mount, Mount] (boot stored_T1 home)) = [''T1'', ''T1'']"
  using strict_mode_arms_two_timers [where e = "scenario_env True" and loc = home and st = stored_T1
      and t = "''T1''" and c = scenario_claims]
  by (simp add: scenario_defs)

text \<open>C10. Logout does not cancel the renewal interval (spec 4.1 says it must): after logout an armed interval still fires and posts the old refresh token to the refresh endpoint.\<close>

theorem logout_keeps_renewal_running:
  assumes "reach e w" and "\<not> crashed w" and "i < length (timers w)"
  shows "let w' = app_step e (Tick i) (app_step e Logout w) in
     \<not> is_authenticated w' \<and> storage w' ''refresh_token'' = None \<and> timers w' = timers w
     \<and> inflight w' = inflight w @ [timers w ! i] \<and> decode e (timers w ! i) \<noteq> None"
proof -
  have inv: "world_inv e w" by (rule reach_world_inv [OF assms(1)])
  with assms(2,3) have nl: "\<not> is_loading w" by (intro loaded_if_timer) auto
  from inv assms(3) have "decode e (timers w ! i) \<noteq> None"
    by (auto simp: world_inv_def resource_inv_def list_all_length)
  with nl assms(2,3) show ?thesis
    by (simp add: handle_logout_def fetch_access_token_def)
qed

theorem logout_keeps_renewal_running_witness:
  "let w = app_step (scenario_env False) Mount (boot stored_T1 home) in
   reach (scenario_env False) w \<and> \<not> crashed w \<and> 0 < length (timers w) \<and>
   (let w' = app_step (scenario_env False) (Tick 0) (app_step (scenario_env False) Logout w) in
     \<not> is_authenticated w' \<and> storage w' ''refresh_token'' = None \<and> timers w' = timers w
     \<and> inflight w' = inflight w @ [timers w ! 0]
     \<and> decode (scenario_env False) (timers w ! 0) \<noteq> None)"
proof -
  let ?e = "scenario_env False" and ?w = "app_step (scenario_env False) Mount (boot stored_T1 home)"
  have r: "reach ?e ?w" by (rule reach.step [OF reach.boot])
  have nc: "\<not> crashed ?w" and l: "0 < length (timers ?w)" by (simp_all add: mount_defs scenario_defs)
  show ?thesis using logout_keeps_renewal_running [OF r nc l] r nc l by (simp add: Let_def)
qed

text \<open>C11. A logout survives a reload: \<open>handleLogout\<close> removes both tokens from
  localStorage (AuthContext.jsx lines 65--74), so the next page load without a redirect
  parameter finds no credential: the effect posts no refresh request, arms no interval and
  leaves the tree unauthenticated, rendered and with both storage keys empty.\<close>

theorem logout_survives_reload:
  assumes "\<not> crashed w" and "\<not> is_loading w" and "url_param (search loc) ''refresh_token'' = None"
  shows "let w' = run e [Mount] (boot (storage (app_step e Logout w)) loc) in
     \<not> is_authenticated w' \<and> inflight w' = [] \<and> timers w' = [] \<and> \<not> crashed w' \<and> \<not> is_loading w'
     \<and> storage w' ''refresh_token'' = None \<and> storage w' ''access_token'' = None"
  using assms
  by (simp add: handle_logout_def mount_skip boot_def mount_limit_def)

theorem logout_survives_reload_witness:
  "let w = run (scenario_env False) [Mount] (boot stored_T1 home);
       w' = run (scenario_env False) [Mount] (boot (storage (app_step (scenario_env False) Logout w)) home)
   in \<not> crashed w \<and> \<not> is_loading w \<and> url_param (search home) ''refresh_token'' = None
     \<and> \<not> is_authenticated w' \<and> inflight w' = [] \<and> timers w' = [] \<and> \<not> crashed w' \<and> \<not> is_loading w'
     \<and> storage w' ''refresh_token'' = None \<and> storage w' ''access_token'' = None"
proof -
  let ?w = "run (scenario_env False) [Mount] (boot stored_T1 home)"
  have h: "\<not> crashed ?w" "\<not> is_loading ?w" "url_param (search home) ''refresh_token'' = None"
    by (simp_all add: mount_defs scenario_defs url_param_def mount_limit_def set_identity_def
        fetch_access_token_def setup_token_renewal_def)
  show ?thesis
    using logout_survives_reload [OF h, of "scenario_env False"] h by (simp only: Let_def) blast
qed

text \<open>C12. The provider signals that initialization is complete (isLoading false) while the refresh request is still in flight and the access token is empty, against spec 4.1 step 4.\<close>

theorem loading_cleared_before_access_token:
  assumes "url_param (search loc) ''refresh_token'' = None"
    and "st ''refresh_token'' = Some t" and "t \<noteq> []" and "dec t = Some c"
  shows "let w = mount dec (boot st loc) in
     \<not> is_loading w \<and> is_authenticated w \<and> access_token w = [] \<and> inflight w = [t]"
  using assms by (simp add: mount_defs)

theorem loading_cleared_before_access_token_witness:
  "let w = mount scenario_decode (boot stored_T1 home) in
     \<not> is_loading w \<and> is_authenticated w \<and> access_token w = [] \<and> inflight w = [''T1'']"
  using loading_cleared_before_access_token [where loc = home and st = stored_T1 and t = "''T1''"
      and dec = scenario_decode and c = scenario_claims]
  by (simp add: scenario_defs)

text \<open>C13. A malformed token in the redirect parameter is written to localStorage before jwtDecode throws; the effect crashes the tree before isLoading is cleared, and every later page load crashes on the stored token.\<close>

theorem malformed_redirect_token_locks_out:
  assumes "url_param (search loc) ''refresh_token'' = Some t" and "t \<noteq> []" and "dec t = None"
    and "url_param (search loc') ''refresh_token'' = None"
  shows "let w = mount dec (boot st loc) in
     crashed w \<and> is_loading w \<and> storage w ''refresh_token'' = Some t
     \<and> crashed (mount dec (boot (storage w) loc'))"
  using assms by (simp add: mount_defs)

theorem malformed_redirect_token_locks_out_witness:
  "let w = mount scenario_decode (boot Map.empty \<lparr>pathname = ''/'', search = [(''refresh_token'', ''bad'')]\<rparr>) in
     crashed w \<and> is_loading w \<and> storage w ''refresh_token'' = Some ''bad''
     \<and> crashed (mount scenario_decode (boot (storage w) home))"
  using malformed_redirect_token_locks_out [where loc = "\<lparr>pathname = ''/'', search = [(''refresh_token'', ''bad'')]\<rparr>"
      and t = "''bad''" and dec = scenario_decode and loc' = home and st = Map.empty]
  by (simp add: scenario_defs)

text \<open>C14. With no stored credential and no redirect parameter, the mount ends unauthenticated, without any network call or interval.\<close>

theorem mount_without_credential:
  assumes "url_param (search loc) ''refresh_token'' = None" and "st ''refresh_token'' = None"
  shows "let w = mount dec (boot st loc) in
     \<not> is_authenticated w \<and> inflight w = [] \<and> timers w = [] \<and> \<not> is_loading w \<and> \<not> crashed w"
  using assms by (simp add: mount_defs)

theorem mount_without_credential_witness:
  "let w = mount scenario_decode (boot Map.empty home) in
     \<not> is_authenticated w \<and> inflight w = [] \<and> timers w = [] \<and> \<not> is_loading w \<and> \<not> crashed w"
  using mount_without_credential [where loc = home and st = Map.empty and dec = scenario_decode]
  by (simp add: scenario_defs)

text \<open>C15. Spec scenario: a stored token is present but the refresh endpoint rejects it; once the response arrives the session is unauthenticated and localStorage holds neither credential.\<close>

theorem refresh_rejected_logs_out:
  assumes "url_param (search loc) ''refresh_token'' = None"
    and "st ''refresh_token'' = Some t" and "t \<noteq> []" and "decode e t = Some c"
  shows "let w = run e [Mount, Response 0 RefreshFailed] (boot st loc) in
     \<not> is_authenticated w \<and> storage w ''refresh_token'' = None
     \<and> storage w ''access_token'' = None \<and> \<not> crashed w"
  using assms by (simp add: mount_defs mount_limit_def handle_logout_def drop_nth_def)

theorem refresh_rejected_logs_out_witness:
  "let w = run (scenario_env False) [Mount, Response 0 RefreshFailed] (boot stored_T1 home) in
     \<not> is_authenticated w \<and> storage w ''refresh_token'' = None
     \<and> storage w ''access_token'' = None \<and> \<not> crashed w"
  using refresh_rejected_logs_out [where e = "scenario_env False" and loc = home and st = stored_T1
      and t = "''T1''" and c = scenario_claims]
  by (simp add: scenario_defs)

text \<open>C16. Every refresh request in flight posts a token that jwtDecode accepted when its interval was armed.\<close>

theorem refresh_posts_decodable_tokens:
  assumes "reach e w" and "t \<in> set (inflight w)"
  shows "decode e t \<noteq> None"
  using reach_world_inv [OF assms(1)] assms(2)
  by (auto simp: world_inv_def resource_inv_def list_all_iff)

theorem refresh_posts_decodable_tokens_witness:
  "let w = app_step (scenario_env False) Mount (boot stored_T1 home) in
     reach (scenario_env False) w \<and> ''T1'' \<in> set (inflight w) \<and> decode (scenario_env False) ''T1'' \<noteq> None"
proof -
  let ?w = "app_step (scenario_env False) Mount (boot stored_T1 home)"
  have r: "reach (scenario_env False) ?w" by (rule reach.step [OF reach.boot])
  have m: "''T1'' \<in> set (inflight ?w)" by (simp add: mount_defs scenario_defs)
  show ?thesis using refresh_posts_decodable_tokens [OF r m] r m by (simp add: Let_def)
qed

text \<open>C17. handleLoginRedirect navigates to the account service with a redirection parameter that decodes back to the origin followed by a slash and contains no query delimiter; it changes no session state.\<close>

theorem login_redirect_roundtrip:
  "\<exists>q. navigation (handle_login_redirect orig w) =
         Some (''https://accounts.dovuchcha.uz/login?redirection='' @ q)
       \<and> decode_uri_component q = Some (orig @ ''/'') \<and> set q \<inter> set ''&#=+?'' = {}
       \<and> storage (handle_login_redirect orig w) = storage w
       \<and> is_authenticated (handle_login_redirect orig w) = is_authenticated w"
  using encode_uri_component_no_delimiters [of "orig @ ''/''"]
  by (simp add: handle_login_redirect_def login_url_def)

text \<open>C38. Loading always ends: from every reachable world, the mount event leaves the provider no longer loading, or its tree crashed. Under StrictMode the second run is skipped or finds the first run's result, so the provider never hides its children for good while it is alive.\<close>

theorem mount_ends_loading:
  assumes "reach e w"
  shows "\<not> is_loading (app_step e Mount w) \<or> crashed (app_step e Mount w)"
proof -
  have inv: "world_inv e w" using reach_world_inv [OF assms] .
  show ?thesis
  proof (cases "crashed w \<or> mount_limit e \<le> mounts w")
    case True
    with inv show ?thesis
      by (auto simp: world_inv_def mounted_inv_def mount_limit_def split: if_splits)
  next
    case False
    with phase_mount [OF inv] show ?thesis by auto
  qed
qed

theorem mount_ends_loading_witness:
  "let e = scenario_env True; w = app_step e Mount (boot stored_T1 home) in
     reach e w \<and> (\<not> is_loading (app_step e Mount w) \<or> crashed (app_step e Mount w))"
proof -
  have r: "reach (scenario_env True) (app_step (scenario_env True) Mount (boot stored_T1 home))"
    by (rule reach.step [OF reach.boot])
  show ?thesis
    using mount_ends_loading [OF r] r by (simp only: Let_def)
qed

end
