(* ===== verification/Routing.thy ===== *)
theory Routing
  imports Session
begin

text \<open>
  \<^verbatim>\<open>src/src/App.jsx\<close> and the render gate of \<open>AuthProvider\<close> (AuthContext.jsx line 114).
  \<open>App\<close> declares three routes; \<open>/order\<close> renders the order page only when the session
  is authenticated and otherwise a \<open><Navigate to="/"/>\<close>. React Router (v6) matches a
  route path case-insensitively and ignores trailing slashes (\<open>matchPath\<close> with its
  default \<open>caseSensitive = false\<close>): \<open>route_matches\<close>. A path no route matches renders
  nothing. The provider renders its children only once \<open>isLoading\<close> is false, and nothing
  at all once the effect has crashed the tree: \<open>app_view\<close>.
\<close>

section \<open>Operations\<close>

datatype page = HomePage | OrderPage | ProfilePage | RedirectTo string | NoRoute

definition normalize_path :: "string \<Rightarrow> string" where
  "normalize_path p = to_lower_case (rev (dropWhile (\<lambda>c. c = CHR ''/'') (rev p)))"

definition route_matches :: "string \<Rightarrow> string \<Rightarrow> bool" where
  "route_matches pattern path = (normalize_path path = normalize_path pattern)"

definition app_route :: "bool \<Rightarrow> string \<Rightarrow> page" where
  "app_route authenticated path =
     (if route_matches ''/'' path then HomePage
      else if route_matches ''/order'' path then
        (if authenticated then OrderPage else RedirectTo ''/'')
      else if route_matches ''/profile'' path then ProfilePage
      else NoRoute)"

definition provider_renders :: "world \<Rightarrow> bool" where
  "provider_renders w = (\<not> crashed w \<and> \<not> is_loading w)"

definition app_view :: "world \<Rightarrow> page option" where
  "app_view w =
     (if provider_renders w then Some (app_route (is_authenticated w) (pathname (location w)))
      else None)"

section \<open>Properties\<close>

lemma normalize_route_literals [simp]:
  "normalize_path ''/'' = []" "normalize_path ''/order'' = ''/order''"
  "normalize_path ''/profile'' = ''/profile''"
  by (simp_all add: normalize_path_def to_lower_case_def js_lower_char_def char_of_eq_iff)

text \<open>C26. The order page is rendered exactly for an authenticated session on a path the
  router matches to \<open>/order\<close>, whatever its case or trailing slashes.\<close>

theorem order_route_guarded:
  "app_route authenticated p = OrderPage \<longleftrightarrow> authenticated \<and> route_matches ''/order'' p"
  by (simp add: app_route_def route_matches_def)

end
