(* ===== verification/Listing.thy ===== *)
theory Listing
  imports Prelude
begin

text \<open>
  The subdomain records the REST API returns and the list pages built on them. Home
  (\<^verbatim>\<open>src/src/pages/Home.jsx\<close>) and Profile (\<^verbatim>\<open>src/src/pages/Profile.jsx\<close>) keep the same
  three pieces of state (\<open>subdomains\<close>, \<open>isLoading\<close>, \<open>error\<close>: the record
  \<open>list_view\<close>) and complete their \<open>fetch\<close> with the same try/catch/finally
  (\<open>fetch_subdomains_done\<close>). The outcome of the request is an input
  (\<open>list_response\<close>): the parsed list, a body that is not JSON, a status that is not
  2xx, or a rejected \<open>fetch\<close>. \<open>home_screen\<close> is the branch Home renders (lines
  93--99) and \<open>home_controls\<close> its header (lines 36--61).
\<close>

section \<open>Data\<close>

record subdomain =
  sd_id :: int
  sd_name :: string
  sd_purpose :: string
  sd_status :: string

datatype list_response =
    ListOk "subdomain list"
  | ListBadBody string
  | ListHttpError nat
  | ListNetworkError string

record list_view =
  lv_subdomains :: "subdomain list"
  lv_loading :: bool
  lv_error :: "string option"

datatype list_screen = ShowLoading | ShowError string | ShowList "subdomain list" | ShowEmpty

datatype home_controls =
    LoginButtons
  | Greeting string

section \<open>Operations\<close>

definition list_view_init :: list_view where
  "list_view_init = \<lparr>lv_subdomains = [], lv_loading = True, lv_error = None\<rparr>"

text \<open>\<open>throw new Error(`HTTP error! Status: ${response.status}`)\<close> caught as \<open>err.message\<close>.\<close>

definition http_error_message :: "nat \<Rightarrow> string" where
  "http_error_message n = ''HTTP error! Status: '' @ decimal n"

fun fetch_subdomains_done :: "list_response \<Rightarrow> list_view \<Rightarrow> list_view" where
  "fetch_subdomains_done (ListOk xs) v = v\<lparr>lv_subdomains := xs, lv_loading := False\<rparr>"
| "fetch_subdomains_done (ListBadBody m) v = v\<lparr>lv_error := Some m, lv_loading := False\<rparr>"
| "fetch_subdomains_done (ListHttpError n) v =
     v\<lparr>lv_error := Some (http_error_message n), lv_loading := False\<rparr>"
| "fetch_subdomains_done (ListNetworkError m) v = v\<lparr>lv_error := Some m, lv_loading := False\<rparr>"

text \<open>Home.jsx lines 93--99: \<open>isLoading ? ... : error ? ... : <SubdomainTable/>\<close>.\<close>

definition home_screen :: "list_view \<Rightarrow> list_screen" where
  "home_screen v =
     (if lv_loading v then ShowLoading
      else if truthy (lv_error v) then ShowError (the (lv_error v))
      else ShowList (lv_subdomains v))"

text \<open>Home.jsx lines 36--61: the login button when not authenticated, else the
  greeting with the username and the logout button.\<close>

definition home_header :: "bool \<Rightarrow> string \<Rightarrow> home_controls" where
  "home_header authenticated user = (if \<not> authenticated then LoginButtons else Greeting user)"

text \<open>A sample subdomain, as the API lists it, for the scenarios of the theories.\<close>

definition blog_subdomain :: subdomain where
  "blog_subdomain =
     \<lparr>sd_id = 1, sd_name = ''blog.dovuchcha.uz'', sd_purpose = ''Company blog'', sd_status = ''active''\<rparr>"

section \<open>Properties\<close>

text \<open>C34. Home shows the outcome of its fetch: the list on success, the HTTP status or the
  error message on failure, and never stays loading; an error whose message is empty is
  falsy and shows the (empty) table instead.\<close>

theorem home_fetch_outcome:
  "home_screen (fetch_subdomains_done r list_view_init) =
     (case r of
        ListOk xs \<Rightarrow> ShowList xs
      | ListHttpError n \<Rightarrow> ShowError (http_error_message n)
      | ListBadBody m \<Rightarrow> if m = [] then ShowList [] else ShowError m
      | ListNetworkError m \<Rightarrow> if m = [] then ShowList [] else ShowError m)"
  by (cases r) (simp_all add: home_screen_def list_view_init_def http_error_message_def)

end
