(* ===== verification/Table.thy ===== *)
theory Table
  imports Listing
begin

text \<open>
  \<^verbatim>\<open>src/src/components/subdomain-table.jsx\<close>: the search box filters the list the page
  passes in (lines 17--21): a subdomain is shown when its name or its purpose contains
  the search term, both lower-cased. The table renders when something is left (line 39),
  each row with a badge whose variant depends on the status (lines 68--74), and the
  "No subdomains found" panel otherwise. The search term is the component's state
  (\<open>table_state\<close>), set by the input's handler (\<open>set_search_term\<close>). The lemmas show that filtering keeps the order
  and a subsequence of the list, shows everything for the empty term, ignores the case of
  the term, and narrows as the term grows.
\<close>

section \<open>Operations\<close>

definition matches_search :: "string \<Rightarrow> subdomain \<Rightarrow> bool" where
  "matches_search term s =
     (js_includes (to_lower_case (sd_name s)) (to_lower_case term) \<or>
      js_includes (to_lower_case (sd_purpose s)) (to_lower_case term))"

definition filtered_subdomains :: "string \<Rightarrow> subdomain list \<Rightarrow> subdomain list" where
  "filtered_subdomains term xs = filter (matches_search term) xs"

datatype badge = Success | Destructive | Warning

definition badge_variant :: "string \<Rightarrow> badge" where
  "badge_variant status =
     (if status = ''active'' then Success
      else if status = ''inactive'' then Destructive else Warning)"

datatype table_view = Rows "(string \<times> string \<times> badge) list" | NotFound

definition table_view :: "string \<Rightarrow> subdomain list \<Rightarrow> table_view" where
  "table_view term xs =
     (let ys = filtered_subdomains term xs
      in if 0 < length ys
         then Rows (map (\<lambda>s. (sd_name s, sd_purpose s, badge_variant (sd_status s))) ys)
         else NotFound)"

text \<open>The component's state, the search term (line 15), its one handler (the input's
  \<open>onChange\<close>, line 32), and the rendering of the list it is given from that state.\<close>

record table_state =
  search_term :: string

definition table_init :: table_state where
  "table_init = \<lparr>search_term = []\<rparr>"

definition set_search_term :: "string \<Rightarrow> table_state \<Rightarrow> table_state" where
  "set_search_term v st = st\<lparr>search_term := v\<rparr>"

definition subdomain_table :: "subdomain list \<Rightarrow> table_state \<Rightarrow> table_view" where
  "subdomain_table xs st = table_view (search_term st) xs"

section \<open>Lemmas\<close>

lemma matches_search_mono:
  "js_includes t' t \<Longrightarrow> matches_search t' s \<Longrightarrow> matches_search t s"
  unfolding matches_search_def by (meson includes_lower_mono includes_trans)

lemma matches_search_lower: "matches_search (to_lower_case t) = matches_search t"
  by (simp add: matches_search_def fun_eq_iff)

lemma filtered_subdomains_Nil [simp]: "filtered_subdomains [] xs = xs"
  by (simp add: filtered_subdomains_def matches_search_def js_simps)

lemma subdomain_table_init:
  "subdomain_table xs table_init =
     (if xs = [] then NotFound
      else Rows (map (\<lambda>s. (sd_name s, sd_purpose s, badge_variant (sd_status s))) xs))"
  by (simp add: subdomain_table_def table_init_def table_view_def)

section \<open>Properties of the search\<close>

text \<open>C32. Typing more narrows the search: when the new term contains the old one, the rows
  shown for it are a subsequence of the rows shown before, in the same order.\<close>

theorem search_narrows:
  assumes "js_includes t' t"
  shows "subseq (filtered_subdomains t' xs) (filtered_subdomains t xs)"
proof -
  have "filtered_subdomains t' xs = filter (matches_search t') (filtered_subdomains t xs)"
    using matches_search_mono [OF assms] by (auto simp: filtered_subdomains_def intro: filter_cong)
  then show ?thesis by simp
qed

theorem search_narrows_witness:
  "js_includes ''blog'' ''bl''
   \<and> subseq (filtered_subdomains ''blog'' [blog_subdomain]) (filtered_subdomains ''bl'' [blog_subdomain])"
proof -
  have h: "js_includes ''blog'' ''bl''" by code_simp
  show ?thesis using search_narrows [OF h, of "[blog_subdomain]"] h by simp
qed

text \<open>C33. The search ignores the case of the term, and the empty term shows the whole list.\<close>

theorem search_ignores_case:
  "filtered_subdomains (to_lower_case t) xs = filtered_subdomains t xs
   \<and> filtered_subdomains [] xs = xs"
  by (simp add: filtered_subdomains_def matches_search_lower)
    (simp add: matches_search_def js_simps)

end
