(* ===== verification/Profile.thy ===== *)
theory Profile
  imports Listing
begin

text \<open>
  \<^verbatim>\<open>src/src/pages/Profile.jsx\<close>. Its effect (lines 15--38) sends an unauthenticated
  visitor back to \<open>/\<close> and otherwise fetches the subdomains of the user \<open>id\<close> taken from
  the session; the fetch completes as on Home (\<open>fetch_subdomains_done\<close>). The page
  renders a loading line, the error, the table or the empty-list sentence (lines
  136--172), and colours each status with \<open>getStatusColor\<close> (lines 40--51), which
  lower-cases the status first. \<open>profile_page\<close> is the whole page: the user card with
  the session's username and e-mail, and the list.
\<close>

section \<open>Operations\<close>

datatype profile_action = NavigateHome | FetchOwn string

text \<open>\<open>${id}\<close> of the context's \<open>id\<close>: the number, or \<open>null\<close> before login.\<close>

definition id_text :: "int option \<Rightarrow> string" where
  "id_text i =
     (case i of
        None \<Rightarrow> ''null''
      | Some n \<Rightarrow> js_int_string n)"

definition profile_effect :: "bool \<Rightarrow> int option \<Rightarrow> profile_action" where
  "profile_effect authenticated i =
     (if \<not> authenticated then NavigateHome
      else FetchOwn (''https://behzod.pythonanywhere.com/api/subdomains/users/'' @ id_text i @ ''/''))"

definition get_status_color :: "string \<Rightarrow> string" where
  "get_status_color status =
     (let s = to_lower_case status
      in if s = ''active'' then ''text-green-600''
         else if s = ''pending'' then ''text-yellow-600''
         else if s = ''inactive'' then ''text-red-600''
         else ''text-gray-600'')"

definition profile_screen :: "list_view \<Rightarrow> list_screen" where
  "profile_screen v =
     (if lv_loading v then ShowLoading
      else if truthy (lv_error v) then ShowError (the (lv_error v))
      else if 0 < length (lv_subdomains v) then ShowList (lv_subdomains v)
      else ShowEmpty)"

text \<open>The link of each row (line 154).\<close>

definition subdomain_link :: "subdomain \<Rightarrow> string" where
  "subdomain_link s = ''https://'' @ sd_name s @ ''.dovuchcha.uz''"

text \<open>The page (lines 53--173): the header with its logout button (lines 56--72, the
  button calls the context's \<open>handleLogout\<close>), the user information card showing the
  context's username and e-mail in disabled inputs (lines 74--108), and the list of the
  user's subdomains (lines 133--173).\<close>

record profile_view =
  pv_username :: string
  pv_email :: string
  pv_list :: list_screen

definition profile_page :: "string \<Rightarrow> string \<Rightarrow> list_view \<Rightarrow> profile_view" where
  "profile_page u em v = \<lparr>pv_username = u, pv_email = em, pv_list = profile_screen v\<rparr>"

section \<open>Properties\<close>

text \<open>C35. The profile list shows the outcome of its fetch: the own subdomains, the sentence
  for an empty list, or the error; it never stays loading once the fetch completed.\<close>

theorem profile_fetch_outcome:
  "profile_screen (fetch_subdomains_done r list_view_init) =
     (case r of
        ListOk xs \<Rightarrow> if xs = [] then ShowEmpty else ShowList xs
      | ListHttpError n \<Rightarrow> ShowError (http_error_message n)
      | ListBadBody m \<Rightarrow> if m = [] then ShowEmpty else ShowError m
      | ListNetworkError m \<Rightarrow> if m = [] then ShowEmpty else ShowError m)"
  by (cases r) (simp_all add: profile_screen_def list_view_init_def http_error_message_def)

end
