(* ===== verification/Json.thy ===== *)
theory Json
  imports Prelude
begin

text \<open>
  \<open>JSON.stringify\<close> (ECMA-262, section 25.5.2), which \<open>handleSubmit\<close> applies to its
  payload (Orders.jsx line 61), and a reader of the JSON texts it produces. Values are the
  datatype \<open>json\<close>; an object is the list of its members in insertion order, which is
  the order \<open>JSON.stringify\<close> prints them in. Strings are quoted by
  \<open>QuoteJSONString\<close>: the short escapes for backspace, tab, newline, form feed,
  carriage return, quotation mark and backslash, \<open>\u00xx\<close> with lower-case hex digits
  for the other control characters, every other character as it is. Numbers are the
  integers the client sends (user ids), printed by \<open>Number.prototype.toString\<close>.

  The reader follows the JSON grammar (RFC 8259) for objects whose members are strings,
  integers, \<open>true\<close>, \<open>false\<close> or \<open>null\<close>, with white space between tokens; it is
  what the API reads the request body with. Its string scanner and its member loop are
  \<open>function\<close>s whose termination rests on every token consuming input.
\<close>

section \<open>Data\<close>

datatype json = JNull | JBool bool | JNum int | JStr string | JArr "json list"
  | JObj "(string \<times> json) list"

abbreviation dquote :: char where "dquote \<equiv> CHR 0x22"

abbreviation bslash :: char where "bslash \<equiv> CHR 0x5C"

section \<open>JSON.stringify\<close>

definition json_hex_digit :: "nat \<Rightarrow> char" where
  "json_hex_digit n = (if n < 10 then char_of (48 + n) else char_of (87 + n))"

definition unicode_escape :: "char \<Rightarrow> string" where
  "unicode_escape c =
     (let n = (of_char c :: nat)
      in [bslash, CHR ''u'', CHR ''0'', CHR ''0'', json_hex_digit (n div 16), json_hex_digit (n mod 16)])"

definition quote_json_char :: "char \<Rightarrow> string" where
  "quote_json_char c =
     (if c = CHR 0x08 then [bslash, CHR ''b'']
      else if c = CHR 0x09 then [bslash, CHR ''t'']
      else if c = CHR 0x0A then [bslash, CHR ''n'']
      else if c = CHR 0x0C then [bslash, CHR ''f'']
      else if c = CHR 0x0D then [bslash, CHR ''r'']
      else if c = dquote then [bslash, dquote]
      else if c = bslash then [bslash, bslash]
      else if (of_char c :: nat) < 32 then unicode_escape c
      else [c])"

definition quote_json_string :: "string \<Rightarrow> string" where
  "quote_json_string s = dquote # concat (map quote_json_char s) @ [dquote]"

text \<open>\<open>Array.prototype.join\<close>.\<close>

fun join_with :: "string \<Rightarrow> string list \<Rightarrow> string" where
  "join_with sep [] = []"
| "join_with sep [x] = x"
| "join_with sep (x # y # xs) = x @ sep @ join_with sep (y # xs)"

fun json_stringify :: "json \<Rightarrow> string" where
  "json_stringify JNull = ''null''"
| "json_stringify (JBool b) = (if b then ''true'' else ''false'')"
| "json_stringify (JNum n) = js_int_string n"
| "json_stringify (JStr s) = quote_json_string s"
| "json_stringify (JArr vs) = ''['' @ join_with '','' (map json_stringify vs) @ '']''"
| "json_stringify (JObj kvs) =
     ''{'' @ join_with '','' (map (\<lambda>(k, v). quote_json_string k @ '':'' @ json_stringify v) kvs) @ ''}''"

section \<open>Reading a JSON object back\<close>

definition json_ws :: "char \<Rightarrow> bool" where
  "json_ws c \<longleftrightarrow> c = CHR '' '' \<or> c = CHR 0x09 \<or> c = CHR 0x0A \<or> c = CHR 0x0D"

definition skip_ws :: "string \<Rightarrow> string" where
  "skip_ws s = dropWhile json_ws s"

definition hex_value :: "char \<Rightarrow> nat option" where
  "hex_value c =
     (let n = (of_char c :: nat) in
      if 48 \<le> n \<and> n \<le> 57 then Some (n - 48)
      else if 97 \<le> n \<and> n \<le> 102 then Some (n - 87)
      else if 65 \<le> n \<and> n \<le> 70 then Some (n - 55)
      else None)"

text \<open>The escape sequence after a backslash: the character it stands for and the rest.
  Characters are the code points below 256, so a \<open>\uXXXX\<close> beyond them is not read.\<close>

definition unescape :: "string \<Rightarrow> (char \<times> string) option" where
  "unescape s =
     (case s of
        [] \<Rightarrow> None
      | d # r \<Rightarrow>
          if d = dquote \<or> d = bslash \<or> d = CHR ''/'' then Some (d, r)
          else if d = CHR ''b'' then Some (CHR 0x08, r)
          else if d = CHR ''t'' then Some (CHR 0x09, r)
          else if d = CHR ''n'' then Some (CHR 0x0A, r)
          else if d = CHR ''f'' then Some (CHR 0x0C, r)
          else if d = CHR ''r'' then Some (CHR 0x0D, r)
          else if d = CHR ''u'' then
            (case r of
               a # b # c # e # r' \<Rightarrow>
                 (case (hex_value a, hex_value b, hex_value c, hex_value e) of
                    (Some x1, Some x2, Some x3, Some x4) \<Rightarrow>
                      (let n = ((x1 * 16 + x2) * 16 + x3) * 16 + x4
                       in if n < 256 then Some (char_of n, r') else None)
                  | _ \<Rightarrow> None)
             | _ \<Rightarrow> None)
          else None)"

text \<open>The characters of a string literal after its opening quote, up to the closing one.\<close>

function parse_string_body :: "string \<Rightarrow> (string \<times> string) option" where
  "parse_string_body [] = None"
| "parse_string_body (c # cs) =
     (if c = dquote then Some ([], cs)
      else if c = bslash then
        (case unescape cs of
           None \<Rightarrow> None
         | Some (d, r) \<Rightarrow> map_option (\<lambda>(x, r'). (d # x, r')) (parse_string_body r))
      else if (of_char c :: nat) < 32 then None
      else map_option (\<lambda>(x, r). (c # x, r)) (parse_string_body cs))"
  by pat_completeness auto
termination
proof -
  have u: "unescape s = Some (d, r) \<Longrightarrow> length r < length s" for s d r
    by (auto simp: unescape_def Let_def split: list.splits if_splits option.splits)
  show ?thesis by (relation "measure length") (auto dest!: u)
qed


definition is_digit :: "char \<Rightarrow> bool" where
  "is_digit c \<longleftrightarrow> 48 \<le> (of_char c :: nat) \<and> (of_char c :: nat) \<le> 57"

definition digits_value :: "string \<Rightarrow> nat" where
  "digits_value ds = foldl (\<lambda>acc d. 10 * acc + (of_char d - 48)) 0 ds"

text \<open>An integer: an optional minus sign and digits without a leading zero.\<close>

definition parse_int :: "string \<Rightarrow> (int \<times> string) option" where
  "parse_int s =
     (let neg = (take 1 s = ''-''); s1 = (if neg then drop 1 s else s);
          ds = takeWhile is_digit s1
      in if ds = [] \<or> (hd ds = CHR ''0'' \<and> 1 < length ds) then None
         else Some (if neg then - int (digits_value ds) else int (digits_value ds),
                    dropWhile is_digit s1))"

definition parse_scalar :: "string \<Rightarrow> (json \<times> string) option" where
  "parse_scalar s =
     (if take 4 s = ''null'' then Some (JNull, drop 4 s)
      else if take 4 s = ''true'' then Some (JBool True, drop 4 s)
      else if take 5 s = ''false'' then Some (JBool False, drop 5 s)
      else case s of
        [] \<Rightarrow> None
      | c # cs \<Rightarrow>
          if c = dquote then map_option (\<lambda>(x, r). (JStr x, r)) (parse_string_body cs)
          else map_option (\<lambda>(n, r). (JNum n, r)) (parse_int s))"

text \<open>The members of an object after its opening brace, up to the closing one.\<close>

function parse_members :: "string \<Rightarrow> ((string \<times> json) list \<times> string) option" where
  "parse_members s =
     (case skip_ws s of
        [] \<Rightarrow> None
      | c # cs \<Rightarrow>
          if c \<noteq> dquote then None
          else
            (case parse_string_body cs of
               None \<Rightarrow> None
             | Some (k, r1) \<Rightarrow>
                 (case skip_ws r1 of
                    [] \<Rightarrow> None
                  | d # r2 \<Rightarrow>
                      if d \<noteq> CHR '':'' then None
                      else
                        (case parse_scalar (skip_ws r2) of
                           None \<Rightarrow> None
                         | Some (v, r3) \<Rightarrow>
                             (case skip_ws r3 of
                                [] \<Rightarrow> None
                              | e # r4 \<Rightarrow>
                                  if e = CHR '','' then
                                    map_option (\<lambda>(kvs, r5). ((k, v) # kvs, r5)) (parse_members r4)
                                  else if e = CHR ''}'' then Some ([(k, v)], r4)
                                  else None)))))"
  by pat_completeness auto
termination
proof -
  have ws: "length (skip_ws s) \<le> length s" for s
    by (simp add: skip_ws_def length_dropWhile_le)
  have wsc: "skip_ws s = c # r \<Longrightarrow> length r < length s" for s c r
    using ws [of s] by simp
  have str: "parse_string_body s = Some (x, r) \<Longrightarrow> length r < length s" for s x r
  proof (induction s arbitrary: x rule: parse_string_body.induct)
    case (2 c cs)
    then show ?case
      by (fastforce simp: unescape_def Let_def split: if_splits option.splits list.splits)
  qed simp
  have sc0: "parse_scalar s = Some (v, r) \<Longrightarrow> length r \<le> length s" for s v r
    by (auto simp: parse_scalar_def parse_int_def Let_def length_dropWhile_le le_SucI
        split: if_splits list.splits dest!: str)
  have sc: "parse_scalar (skip_ws s) = Some (v, r) \<Longrightarrow> length r \<le> length s" for s v r
    using ws [of s] sc0 [of "skip_ws s" v r] by simp
  show ?thesis
    by (relation "measure length") (auto dest!: wsc str sc)
qed

declare parse_members.simps [simp del]

definition parse_object :: "string \<Rightarrow> (string \<times> json) list option" where
  "parse_object s =
     (case skip_ws s of
        [] \<Rightarrow> None
      | c # r \<Rightarrow>
          if c \<noteq> CHR ''{'' then None
          else
            (case skip_ws r of
               [] \<Rightarrow> None
             | d # r' \<Rightarrow>
                 if d = CHR ''}'' then (if skip_ws r' = [] then Some [] else None)
                 else
                   (case parse_members r of
                      None \<Rightarrow> None
                    | Some (kvs, r'') \<Rightarrow> if skip_ws r'' = [] then Some kvs else None)))"


text \<open>The values a flat object's members may hold, and what may follow a number.\<close>

definition json_scalar :: "json \<Rightarrow> bool" where
  "json_scalar v = (case v of JArr _ \<Rightarrow> False | JObj _ \<Rightarrow> False | _ \<Rightarrow> True)"

definition ends_number :: "string \<Rightarrow> bool" where
  "ends_number r \<longleftrightarrow> r = [] \<or> \<not> is_digit (hd r)"

abbreviation json_member :: "string \<times> json \<Rightarrow> string" where
  "json_member \<equiv> \<lambda>(k, v). quote_json_string k @ '':'' @ json_stringify v"

section \<open>Lemmas: the reader inverts JSON.stringify\<close>

lemma hex_value_json_hex_digit: "k < 16 \<Longrightarrow> hex_value (json_hex_digit k) = Some k"
  by (auto simp: hex_value_def json_hex_digit_def Let_def)

lemma unescape_unicode:
  assumes "(of_char c :: nat) < 32"
  shows "unescape (CHR ''u'' # CHR ''0'' # CHR ''0'' # json_hex_digit ((of_char c :: nat) div 16)
     # json_hex_digit (of_char c mod 16) # t) = Some (c, t)"
proof -
  let ?n = "of_char c :: nat"
  have h: "hex_value (json_hex_digit (?n div 16)) = Some (?n div 16)"
    "hex_value (json_hex_digit (?n mod 16)) = Some (?n mod 16)"
    using assms by (simp_all add: hex_value_json_hex_digit)
  have h0: "hex_value (CHR ''0'') = Some 0" by (simp add: hex_value_def)
  have "((0 * 16 + 0) * 16 + ?n div 16) * 16 + ?n mod 16 = ?n" by simp
  with h h0 assms show ?thesis by (simp add: unescape_def)
qed

lemma parse_string_body_quote_char:
  "parse_string_body (quote_json_char c @ t) = map_option (\<lambda>(x, r). (c # x, r)) (parse_string_body t)"
proof -
  consider (esc) "c \<in> {CHR 0x08, CHR 0x09, CHR 0x0A, CHR 0x0C, CHR 0x0D, dquote, bslash}"
    | (ctl) "(of_char c :: nat) < 32" "c \<notin> {CHR 0x08, CHR 0x09, CHR 0x0A, CHR 0x0C, CHR 0x0D, dquote, bslash}"
    | (plain) "\<not> (of_char c :: nat) < 32" "c \<noteq> dquote" "c \<noteq> bslash"
    by blast
  then show ?thesis
  proof cases
    case esc
    then show ?thesis by (elim insertE emptyE) (simp_all add: quote_json_char_def unescape_def)
  next
    case ctl
    then show ?thesis
      by (simp add: quote_json_char_def unicode_escape_def unescape_unicode Let_def)
  next
    case plain
    then have "c \<notin> {CHR 0x08, CHR 0x09, CHR 0x0A, CHR 0x0C, CHR 0x0D}" by auto
    with plain show ?thesis by (simp add: quote_json_char_def)
  qed
qed

lemma parse_string_body_quote:
  "parse_string_body (concat (map quote_json_char s) @ dquote # r) = Some (s, r)"
  by (induction s) (simp_all add: parse_string_body_quote_char)

lemma is_digit_decimal: "c \<in> set (decimal n) \<Longrightarrow> is_digit c"
proof (induction n rule: decimal.induct)
  case (1 n)
  then show ?case
    by (subst (asm) decimal.simps) (auto simp: is_digit_def split: if_splits)
qed

lemma digits_value_decimal: "digits_value (decimal n) = n"
proof (induction n rule: decimal.induct)
  case (1 n)
  then show ?case
    by (subst decimal.simps) (simp add: digits_value_def)
qed

lemma decimal_length_one:
  assumes "length (decimal n) = 1"
  shows "decimal n = [char_of (48 + n)] \<and> n < 10"
proof (cases "n < 10")
  case True
  then show ?thesis by (subst decimal.simps) simp
next
  case False
  then have "length (decimal n) = length (decimal (n div 10)) + 1"
    by (subst decimal.simps) simp
  with assms decimal_not_Nil show ?thesis by simp
qed

lemma decimal_no_leading_zero: "1 < length (decimal n) \<Longrightarrow> hd (decimal n) \<noteq> CHR ''0''"
proof (induction n rule: decimal.induct)
  case (1 n)
  show ?case
  proof (cases "n < 10")
    case True
    with "1.prems" show ?thesis by (subst (asm) decimal.simps) simp
  next
    case False
    then have d: "decimal n = decimal (n div 10) @ [char_of (48 + n mod 10)]"
      by (subst decimal.simps) simp
    show ?thesis
    proof (cases "1 < length (decimal (n div 10))")
      case True
      with "1.IH" False d show ?thesis by simp
    next
      case short: False
      then have "length (decimal (n div 10)) = 1"
        using decimal_not_Nil [of "n div 10"] by (cases "decimal (n div 10)") auto
      from decimal_length_one [OF this] False d show ?thesis
        by (simp add: char_of_eq_iff take_bit_nat_eq_self)
    qed
  qed
qed

lemma decimal_split:
  assumes "ends_number r"
  shows "takeWhile is_digit (decimal m @ r) = decimal m \<and> dropWhile is_digit (decimal m @ r) = r"
  using assms is_digit_decimal [of _ m] by (cases r) (simp_all add: ends_number_def)

lemma parse_int_js_int_string:
  assumes "ends_number r"
  shows "parse_int (js_int_string n @ r) = Some (n, r)"
proof -
  obtain c cs where dc: "decimal (nat \<bar>n\<bar>) = c # cs" using decimal_not_Nil by (meson neq_Nil_conv)
  have "is_digit c" using is_digit_decimal [of c "nat \<bar>n\<bar>"] dc by simp
  then have c: "c \<noteq> CHR ''-''" by (auto simp: is_digit_def)
  have lz: "\<not> (hd (decimal (nat \<bar>n\<bar>)) = CHR ''0'' \<and> 1 < length (decimal (nat \<bar>n\<bar>)))"
    using decimal_no_leading_zero by blast
  show ?thesis
  proof (cases "n < 0")
    case True
    then show ?thesis using decimal_split [OF assms] lz
      by (simp add: parse_int_def js_int_string_def digits_value_decimal Let_def)
  next
    case False
    have t1: "take 1 (decimal (nat n) @ r) \<noteq> ''-''" using dc c False by simp
    from False show ?thesis using decimal_split [OF assms] lz t1
      by (simp add: parse_int_def js_int_string_def digits_value_decimal Let_def)
  qed
qed

lemma skip_ws_Cons [simp]: "\<not> json_ws c \<Longrightarrow> skip_ws (c # s) = c # s"
  by (simp add: skip_ws_def)

lemma js_int_string_Cons: "\<exists>c cs. js_int_string n = c # cs \<and> (c = CHR ''-'' \<or> is_digit c)"
proof -
  obtain c cs where dc: "decimal (nat \<bar>n\<bar>) = c # cs" using decimal_not_Nil by (meson neq_Nil_conv)
  then have "is_digit c" using is_digit_decimal [of c "nat \<bar>n\<bar>"] by simp
  with dc show ?thesis by (auto simp: js_int_string_def)
qed

lemma stringify_scalar_Cons:
  assumes "json_scalar v"
  obtains c cs where "json_stringify v = c # cs" "\<not> json_ws c"
proof (cases v)
  case (JNum n)
  obtain c cs where "js_int_string n = c # cs" "c = CHR ''-'' \<or> is_digit c"
    using js_int_string_Cons by blast
  moreover have "\<not> json_ws c"
    using \<open>c = CHR ''-'' \<or> is_digit c\<close> by (auto simp: is_digit_def json_ws_def)
  ultimately show ?thesis using JNum that by simp
next
  case (JBool b)
  with that show ?thesis by (cases b) (simp_all add: json_ws_def)
qed (use assms that in \<open>auto simp: json_scalar_def json_ws_def quote_json_string_def\<close>)

lemma skip_ws_stringify: "json_scalar v \<Longrightarrow> skip_ws (json_stringify v @ r) = json_stringify v @ r"
  by (erule stringify_scalar_Cons) simp

lemma parse_scalar_stringify:
  assumes "json_scalar v" and "ends_number r"
  shows "parse_scalar (json_stringify v @ r) = Some (v, r)"
proof (cases v)
  case (JNum n)
  obtain c cs where c: "js_int_string n = c # cs" "c = CHR ''-'' \<or> is_digit c"
    using js_int_string_Cons by blast
  then have "c \<notin> {CHR ''n'', CHR ''t'', CHR ''f'', dquote}" by (auto simp: is_digit_def)
  moreover have p: "parse_int ((c # cs) @ r) = Some (n, r)"
    using parse_int_js_int_string [OF assms(2), of n] c(1) by simp
  ultimately show ?thesis using c(1) JNum by (simp add: parse_scalar_def)
next
  case (JStr s)
  then show ?thesis
    by (simp add: parse_scalar_def quote_json_string_def parse_string_body_quote)
qed (use assms in \<open>simp_all add: parse_scalar_def json_scalar_def\<close>)

lemma parse_members_step:
  assumes "json_scalar v" and "e = CHR '','' \<or> e = CHR ''}''"
  shows "parse_members (quote_json_string k @ CHR '':'' # json_stringify v @ e # r) =
    (if e = CHR '','' then map_option (\<lambda>(kvs, r'). ((k, v) # kvs, r')) (parse_members r)
     else Some ([(k, v)], r))"
proof -
  have s: "parse_scalar (json_stringify v @ e # r) = Some (v, e # r)"
    using assms by (intro parse_scalar_stringify) (auto simp: ends_number_def is_digit_def)
  show ?thesis
    apply (subst parse_members.simps)
    using assms s
    by (auto simp: quote_json_string_def parse_string_body_quote skip_ws_stringify json_ws_def)
qed


lemma parse_members_stringify:
  assumes "kvs \<noteq> []" and "\<forall>kv \<in> set kvs. json_scalar (snd kv)"
  shows "parse_members (join_with '','' (map json_member kvs) @ CHR ''}'' # r) = Some (kvs, r)"
  using assms
proof (induction kvs rule: list_nonempty_induct)
  case (single kv)
  then show ?case by (cases kv) (simp add: parse_members_step)
next
  case (cons kv kvs)
  then obtain kv' kvs' where "kvs = kv' # kvs'" by (cases kvs) auto
  with cons show ?case by (cases kv) (simp add: parse_members_step)
qed

theorem parse_object_stringify:
  assumes "\<forall>kv \<in> set kvs. json_scalar (snd kv)"
  shows "parse_object (json_stringify (JObj kvs)) = Some kvs"
proof (cases kvs)
  case Nil
  then show ?thesis by (simp add: parse_object_def json_ws_def skip_ws_def)
next
  case (Cons kv kvs')
  obtain k v where kv: "kv = (k, v)" by (cases kv)
  have "join_with '','' (map json_member kvs) = dquote # concat (map quote_json_char k) @
      dquote # '':'' @ json_stringify v @ (if kvs' = [] then [] else '','' @ join_with '','' (map json_member kvs'))"
    using Cons kv by (cases kvs') (simp_all add: quote_json_string_def)
  moreover have "parse_members (join_with '','' (map json_member kvs) @ ''}'') = Some (kvs, [])"
    using parse_members_stringify [OF _ assms, of "[]"] Cons by simp
  ultimately show ?thesis
    by (simp add: parse_object_def json_ws_def skip_ws_def)
qed

end
