(* ===== verification/OrderForm.thy ===== *)
theory OrderForm
  imports Listing Json
begin

text \<open>
  \<^verbatim>\<open>src/src/components/Orders.jsx\<close> (\<open>OrderForm\<close>). The component state (lines 12--14
  and 36) and what it has done to the outside (the POST requests sent, the toasts shown,
  the scheduled redirect, the rejections nobody handles) form the record
  \<open>order_form\<close>. The duplicate check \<open>doesExist\<close> (lines 39--42) compares the first
  label of each known name with the typed name, both lower-cased. The mount effect
  (lines 16--33) fetches the existing subdomains; its \<open>catch\<close> and \<open>finally\<close> call
  \<open>setError\<close> and \<open>setIsLoading\<close>, which this component never declares, so the
  completion always ends in a \<open>ReferenceError\<close> (\<open>order_fetch_done\<close>). The submit
  handler (lines 44--84) is split into its synchronous part (\<open>handle_submit\<close>, up to the
  \<open>fetch\<close>) and its completion (\<open>handle_submit_done\<close>). The browser lets the form be
  submitted only when the submit button is enabled (\<open>disabled={doesExist ||
  isSubmitting}\<close>, line 155) and both \<open>required\<close> fields are filled (lines 106, 149):
  \<open>can_submit\<close>. \<open>order_step\<close> is one event, the user id \<open>uid\<close> coming from the
  session context (line 34). The body of the POST is the text \<open>JSON.stringify\<close> makes of
  the payload (\<open>request_text\<close>). What the form shows is \<open>order_form_view\<close>, and the page
  of \<^verbatim>\<open>src/src/pages/OrderSubmit.jsx\<close> puts a heading above it.
\<close>

section \<open>Data\<close>

datatype js_exn = ReferenceError string

record order_payload =
  op_name :: string
  op_user :: "int option"
  op_purpose :: string
  op_status :: string

record post_request =
  req_url :: string
  req_headers :: "(string \<times> string) list"
  req_body :: order_payload

text \<open>The outcome of the POST: ok with a JSON body, ok with a body \<open>response.json()\<close>
  cannot parse (the message of its SyntaxError), not ok with a JSON body and its
  \<open>detail\<close> field if any, not ok with an unparsable body, or a rejected \<open>fetch\<close>.\<close>

datatype create_response =
    Created
  | CreatedBadBody string
  | Rejected "string option"
  | RejectedBadBody string
  | CreateNetworkError string

record order_form =
  subdomain_input :: string
  known_subdomains :: "subdomain list"
  purpose_input :: string
  is_submitting :: bool
  in_flight :: "post_request option"
  sent :: "post_request list"
  toasts :: "string list"
  redirect_scheduled :: bool
  navigated_home :: bool
  unhandled :: "js_exn list"

datatype order_event =
    TypeSubdomain string
  | TypePurpose string
  | LoadDone list_response
  | Submit
  | SubmitDone create_response
  | RedirectFires

section \<open>Operations\<close>

definition order_form_init :: order_form where
  "order_form_init =
     \<lparr>subdomain_input = [], known_subdomains = [], purpose_input = [], is_submitting = False,
      in_flight = None, sent = [], toasts = [], redirect_scheduled = False,
      navigated_home = False, unhandled = []\<rparr>"

definition does_exist :: "subdomain list \<Rightarrow> string \<Rightarrow> bool" where
  "does_exist xs sub =
     list_ex (\<lambda>s. to_lower_case (split_first (CHR ''.'') (sd_name s)) = to_lower_case sub) xs"

text \<open>The \<open>try\<close> and \<open>catch\<close> blocks of \<open>fetchSubdomains\<close> (lines 18--26): the list
  is stored on success; on failure the \<open>catch\<close> calls the undeclared \<open>setError\<close>.\<close>

definition order_fetch_try :: "list_response \<Rightarrow> order_form \<Rightarrow> (js_exn \<times> order_form) + order_form" where
  "order_fetch_try r f =
     (case r of
        ListOk xs \<Rightarrow> Inr (f\<lparr>known_subdomains := xs\<rparr>)
      | _ \<Rightarrow> Inl (ReferenceError ''setError is not defined'', f))"

text \<open>The \<open>finally\<close> block (lines 27--29) calls the undeclared \<open>setIsLoading\<close>; an
  exception thrown in \<open>finally\<close> replaces whatever the \<open>try\<close> or \<open>catch\<close> ended with.\<close>

definition order_fetch_done :: "list_response \<Rightarrow> order_form \<Rightarrow> (js_exn \<times> order_form) + order_form" where
  "order_fetch_done r f =
     (case order_fetch_try r f of
        Inl (_, f1) \<Rightarrow> Inl (ReferenceError ''setIsLoading is not defined'', f1)
      | Inr f1 \<Rightarrow> Inl (ReferenceError ''setIsLoading is not defined'', f1))"

text \<open>The promise of \<open>fetchSubdomains()\<close> (line 32) is not awaited: its rejection is an
  unhandled rejection, logged by the browser; the state written before it stays.\<close>

definition order_load :: "list_response \<Rightarrow> order_form \<Rightarrow> order_form" where
  "order_load r f =
     (case order_fetch_done r f of
        Inl (e, f1) \<Rightarrow> f1\<lparr>unhandled := unhandled f1 @ [e]\<rparr>
      | Inr f1 \<Rightarrow> f1)"

definition can_submit :: "order_form \<Rightarrow> bool" where
  "can_submit f =
     (\<not> (does_exist (known_subdomains f) (subdomain_input f) \<or> is_submitting f)
      \<and> subdomain_input f \<noteq> [] \<and> purpose_input f \<noteq> [])"

definition make_payload :: "int option \<Rightarrow> order_form \<Rightarrow> order_payload" where
  "make_payload uid f =
     \<lparr>op_name = subdomain_input f, op_user = uid, op_purpose = purpose_input f,
      op_status = ''pending''\<rparr>"

definition create_request :: "order_payload \<Rightarrow> post_request" where
  "create_request p =
     \<lparr>req_url = ''https://behzod.pythonanywhere.com/api/subdomains/'',
      req_headers = [(''Content-Type'', ''application/json'')], req_body = p\<rparr>"

text \<open>The text sent as the body (line 61): \<open>JSON.stringify(payload)\<close>, the members in
  the order of the object literal (lines 48--53); the context's \<open>id\<close> is \<open>null\<close> until
  a session has been decoded.\<close>

definition payload_json :: "order_payload \<Rightarrow> json" where
  "payload_json p =
     JObj [(''name'', JStr (op_name p)),
           (''user'', (case op_user p of None \<Rightarrow> JNull | Some n \<Rightarrow> JNum n)),
           (''purpose'', JStr (op_purpose p)), (''status'', JStr (op_status p))]"

definition request_text :: "post_request \<Rightarrow> string" where
  "request_text r = json_stringify (payload_json (req_body r))"

definition handle_submit :: "int option \<Rightarrow> order_form \<Rightarrow> order_form" where
  "handle_submit uid f =
     (let req = create_request (make_payload uid f)
      in f\<lparr>is_submitting := True, in_flight := Some req, sent := sent f @ [req]\<rparr>)"

definition submission_failed :: "string \<Rightarrow> order_form \<Rightarrow> order_form" where
  "submission_failed msg f =
     f\<lparr>toasts := toasts f @ [msg], is_submitting := False, in_flight := None\<rparr>"

text \<open>\<open>errorData.detail || 'Failed to create subdomain.'\<close> (line 66).\<close>

definition rejection_message :: "string option \<Rightarrow> string" where
  "rejection_message d = (if truthy d then the d else ''Failed to create subdomain.'')"

fun handle_submit_done :: "create_response \<Rightarrow> order_form \<Rightarrow> order_form" where
  "handle_submit_done Created f =
     f\<lparr>redirect_scheduled := True, is_submitting := False, in_flight := None\<rparr>"
| "handle_submit_done (CreatedBadBody m) f = submission_failed m f"
| "handle_submit_done (Rejected d) f = submission_failed (rejection_message d) f"
| "handle_submit_done (RejectedBadBody m) f = submission_failed m f"
| "handle_submit_done (CreateNetworkError m) f = submission_failed m f"

fun order_step :: "int option \<Rightarrow> order_event \<Rightarrow> order_form \<Rightarrow> order_form" where
  "order_step uid (TypeSubdomain s) f = f\<lparr>subdomain_input := s\<rparr>"
| "order_step uid (TypePurpose p) f = f\<lparr>purpose_input := p\<rparr>"
| "order_step uid (LoadDone r) f = order_load r f"
| "order_step uid Submit f = (if can_submit f then handle_submit uid f else f)"
| "order_step uid (SubmitDone r) f = (if in_flight f \<noteq> None then handle_submit_done r f else f)"
| "order_step uid RedirectFires f = (if redirect_scheduled f then f\<lparr>navigated_home := True\<rparr> else f)"

fun order_run :: "int option \<Rightarrow> order_event list \<Rightarrow> order_form \<Rightarrow> order_form" where
  "order_run uid [] f = f"
| "order_run uid (ev # evs) f = order_run uid evs (order_step uid ev f)"

inductive order_reach :: "int option \<Rightarrow> order_form \<Rightarrow> bool" for uid where
  init: "order_reach uid order_form_init"
| step: "order_reach uid f \<Longrightarrow> order_reach uid (order_step uid ev f)"

text \<open>Which events are completions of the list fetch, and which of those failed.\<close>

fun is_load :: "order_event \<Rightarrow> bool" where
  "is_load (LoadDone r) = True"
| "is_load _ = False"

fun failed_load :: "order_event \<Rightarrow> bool" where
  "failed_load (LoadDone (ListOk xs)) = False"
| "failed_load (LoadDone r) = True"
| "failed_load _ = False"

text \<open>What every request the form has sent looks like (lines 48--62).\<close>

definition well_formed_request :: "int option \<Rightarrow> post_request \<Rightarrow> bool" where
  "well_formed_request uid r \<longleftrightarrow>
     op_status (req_body r) = ''pending'' \<and> op_user (req_body r) = uid
     \<and> op_name (req_body r) \<noteq> [] \<and> op_purpose (req_body r) \<noteq> []
     \<and> req_headers r = [(''Content-Type'', ''application/json'')]"

definition order_inv :: "int option \<Rightarrow> order_form \<Rightarrow> bool" where
  "order_inv uid f \<longleftrightarrow>
     (is_submitting f \<longleftrightarrow> in_flight f \<noteq> None) \<and>
     list_all (well_formed_request uid) (sent f) \<and>
     (case in_flight f of None \<Rightarrow> True | Some r \<Rightarrow> r \<in> set (sent f))"

text \<open>Form states of the scenarios below: the list loaded, a new name and a purpose
  typed, and then submitted.\<close>

definition submitted_typed :: order_form where
  "submitted_typed = order_run (Some 7)
     [LoadDone (ListOk [blog_subdomain]), TypeSubdomain ''shop'', TypePurpose ''Online store'']
     order_form_init"

definition submitted_shop :: order_form where
  "submitted_shop = order_run (Some 7)
     [LoadDone (ListOk [blog_subdomain]), TypeSubdomain ''shop'', TypePurpose ''Online store'', Submit]
     order_form_init"

section \<open>Rendering\<close>

text \<open>What the form shows (lines 86--159): the inputs echo the state, the warning under
  the name appears when \<open>doesExist\<close> (lines 116--120), the e-mail field shows the
  context's address and cannot be edited (lines 128--134), and the submit button is
  disabled and relabelled as the state says (lines 152--158).\<close>

record order_view =
  ov_subdomain_value :: string
  ov_duplicate_warning :: bool
  ov_email_value :: string
  ov_purpose_value :: string
  ov_submit_disabled :: bool
  ov_button_label :: string

definition order_form_view :: "string \<Rightarrow> order_form \<Rightarrow> order_view" where
  "order_form_view em f =
     \<lparr>ov_subdomain_value = subdomain_input f,
      ov_duplicate_warning = does_exist (known_subdomains f) (subdomain_input f),
      ov_email_value = em, ov_purpose_value = purpose_input f,
      ov_submit_disabled = (does_exist (known_subdomains f) (subdomain_input f) \<or> is_submitting f),
      ov_button_label = (if is_submitting f then ''Submitting...'' else ''Submit Order'')\<rparr>"

text \<open>\<^verbatim>\<open>src/src/pages/OrderSubmit.jsx\<close>: the page is a heading above the form.\<close>

definition order_submit_page :: "string \<Rightarrow> order_form \<Rightarrow> string \<times> order_view" where
  "order_submit_page em f = (''Order a New Subdomain'', order_form_view em f)"

section \<open>Lemmas\<close>

lemma order_inv_init: "order_inv uid order_form_init"
  by (simp add: order_inv_def order_form_init_def)

lemma order_load_frame [simp, world_simps]:
  "is_submitting (order_load r f) = is_submitting f" "in_flight (order_load r f) = in_flight f"
  "sent (order_load r f) = sent f" "toasts (order_load r f) = toasts f"
  "subdomain_input (order_load r f) = subdomain_input f"
  "redirect_scheduled (order_load r f) = redirect_scheduled f"
  by (simp_all add: order_load_def order_fetch_done_def order_fetch_try_def split: list_response.split)

lemma submit_done_frame [simp, world_simps]:
  "sent (handle_submit_done r f) = sent f \<and> \<not> is_submitting (handle_submit_done r f)
   \<and> in_flight (handle_submit_done r f) = None"
  by (cases r) (simp_all add: submission_failed_def)

lemma order_inv_step:
  assumes "order_inv uid f"
  shows "order_inv uid (order_step uid ev f)"
proof (cases ev)
  case Submit
  with assms show ?thesis
    by (auto simp: order_inv_def handle_submit_def can_submit_def well_formed_request_def
        create_request_def make_payload_def Let_def)
qed (use assms in \<open>auto simp: order_inv_def\<close>)

lemma can_submit_view:
  "can_submit f \<longleftrightarrow> \<not> ov_submit_disabled (order_form_view em f)
     \<and> ov_subdomain_value (order_form_view em f) \<noteq> [] \<and> ov_purpose_value (order_form_view em f) \<noteq> []"
  by (simp add: can_submit_def order_form_view_def)

lemma payload_json_flat: "\<forall>kv \<in> set (case payload_json p of JObj kvs \<Rightarrow> kvs | _ \<Rightarrow> []). json_scalar (snd kv)"
  by (simp add: payload_json_def json_scalar_def split: option.split)

lemma order_reach_inv: "order_reach uid f \<Longrightarrow> order_inv uid f"
  by (induction rule: order_reach.induct) (simp_all add: order_inv_init order_inv_step)

lemma order_reach_run: "order_reach uid f \<Longrightarrow> order_reach uid (order_run uid evs f)"
  by (induction evs arbitrary: f) (auto intro: order_reach.step)

lemma unhandled_order_step:
  "unhandled (order_step uid ev f) =
     unhandled f @ (if is_load ev then [ReferenceError ''setIsLoading is not defined''] else [])"
proof (cases ev)
  case (LoadDone r)
  then show ?thesis
    by (cases r) (simp_all add: order_load_def order_fetch_done_def order_fetch_try_def)
next
  case (SubmitDone r)
  then show ?thesis
    by (cases r) (simp_all add: submission_failed_def handle_submit_def Let_def)
qed (simp_all add: handle_submit_def Let_def)

lemma order_step_forget:
  "(order_step uid ev f)\<lparr>unhandled := []\<rparr> = (order_step uid ev (f\<lparr>unhandled := []\<rparr>))\<lparr>unhandled := []\<rparr>"
proof (cases ev)
  case (LoadDone r)
  then show ?thesis
    by (cases r) (simp_all add: order_load_def order_fetch_done_def order_fetch_try_def)
next
  case Submit
  then show ?thesis
    by (simp add: handle_submit_def Let_def can_submit_def make_payload_def)
next
  case (SubmitDone r)
  then show ?thesis
    by (cases r) (simp_all add: submission_failed_def)
qed simp_all

lemma failed_load_forget:
  "failed_load ev \<Longrightarrow> (order_step uid ev f)\<lparr>unhandled := []\<rparr> = f\<lparr>unhandled := []\<rparr>"
  by (cases ev rule: failed_load.cases)
    (simp_all add: order_load_def order_fetch_done_def order_fetch_try_def)

lemma order_run_forget:
  "f\<lparr>unhandled := []\<rparr> = g\<lparr>unhandled := []\<rparr> \<Longrightarrow>
   (order_run uid evs f)\<lparr>unhandled := []\<rparr> = (order_run uid (filter (\<lambda>ev. \<not> failed_load ev) evs) g)\<lparr>unhandled := []\<rparr>"
proof (induction evs arbitrary: f g)
  case (Cons ev evs)
  show ?case
  proof (cases "failed_load ev")
    case True
    with Cons.prems have "(order_step uid ev f)\<lparr>unhandled := []\<rparr> = g\<lparr>unhandled := []\<rparr>"
      by (simp add: failed_load_forget)
    with True Cons.IH show ?thesis by simp
  next
    case False
    have "(order_step uid ev f)\<lparr>unhandled := []\<rparr> = (order_step uid ev g)\<lparr>unhandled := []\<rparr>"
      using order_step_forget [of uid ev f] order_step_forget [of uid ev g] Cons.prems by simp
    with False Cons.IH show ?thesis by simp
  qed
qed simp

lemma js_lower_char_dot: "(js_lower_char c = CHR ''.'') = (c = CHR ''.'')"
proof -
  have "(of_char (js_lower_char c) :: nat) = 46 \<longleftrightarrow> (of_char c :: nat) = 46"
    by (simp add: of_char_js_lower_char Let_def)
  moreover have "(of_char (CHR ''.'') :: nat) = 46" by simp
  ultimately show ?thesis by (metis of_char_eq_iff)
qed

lemma dot_in_lower: "(CHR ''.'' \<in> set (to_lower_case s)) = (CHR ''.'' \<in> set s)"
proof -
  have "(CHR ''.'' \<in> js_lower_char ` set s) = (\<exists>x\<in>set s. js_lower_char x = CHR ''.'')"
    by (force simp: image_iff)
  also have "\<dots> = (CHR ''.'' \<in> set s)" by (simp add: js_lower_char_dot)
  finally show ?thesis by (simp add: to_lower_case_def)
qed

lemmas order_scenario_defs = submitted_shop_def order_form_init_def blog_subdomain_def
  does_exist_def can_submit_def handle_submit_def create_request_def make_payload_def
  order_load_def order_fetch_done_def order_fetch_try_def Let_def
  to_lower_case_def split_first_def js_lower_char_def char_of_eq_iff

section \<open>Properties of the order form\<close>

text \<open>C20. Every POST the order form has sent carries status pending, the user id of the session context, a non-empty name and purpose, and only the Content-Type header: no Authorization header, so the access token of the session is never used.\<close>

theorem sent_requests_well_formed:
  assumes "order_reach uid f"
  shows "list_all (well_formed_request uid) (sent f)"
  using order_reach_inv [OF assms] by (simp add: order_inv_def)

theorem sent_requests_well_formed_witness:
  "order_reach (Some 7) submitted_shop \<and> list_all (well_formed_request (Some 7)) (sent submitted_shop)
   \<and> sent submitted_shop \<noteq> []"
proof -
  have r: "order_reach (Some 7) submitted_shop"
    unfolding submitted_shop_def by (rule order_reach_run [OF order_reach.init])
  have "sent submitted_shop \<noteq> []"
    by (simp add: order_scenario_defs)
  then show ?thesis using sent_requests_well_formed [OF r] r by simp
qed

text \<open>C21. While a POST is in flight the submit button is disabled: a submit event changes nothing, so at most one creation request is pending.\<close>

theorem single_post_in_flight:
  assumes "order_reach uid f" and "in_flight f \<noteq> None"
  shows "order_step uid Submit f = f"
  using order_reach_inv [OF assms(1)] assms(2) by (simp add: order_inv_def can_submit_def)

theorem single_post_in_flight_witness:
  "order_reach (Some 7) submitted_shop \<and> in_flight submitted_shop \<noteq> None
   \<and> order_step (Some 7) Submit submitted_shop = submitted_shop"
proof -
  have r: "order_reach (Some 7) submitted_shop"
    unfolding submitted_shop_def by (rule order_reach_run [OF order_reach.init])
  have i: "in_flight submitted_shop \<noteq> None"
    by (simp add: order_scenario_defs)
  show ?thesis using single_post_in_flight [OF r i] r i by simp
qed

text \<open>C22. A request is sent only by a submit event and only for a name that the duplicate check does not flag against the list loaded so far; the request is built from the typed name and purpose.\<close>

theorem submit_only_new_names:
  assumes "sent (order_step uid ev f) \<noteq> sent f"
  shows "ev = Submit \<and> \<not> does_exist (known_subdomains f) (subdomain_input f)
    \<and> sent (order_step uid ev f) = sent f @ [create_request (make_payload uid f)]"
  using assms by (cases ev) (auto simp: can_submit_def handle_submit_def Let_def split: if_splits)

theorem submit_only_new_names_witness:
  "sent (order_step (Some 7) Submit submitted_typed) \<noteq> sent submitted_typed
   \<and> Submit = Submit \<and> \<not> does_exist (known_subdomains submitted_typed) (subdomain_input submitted_typed)
   \<and> sent (order_step (Some 7) Submit submitted_typed) =
       sent submitted_typed @ [create_request (make_payload (Some 7) submitted_typed)]"
proof -
  have h: "sent (order_step (Some 7) Submit submitted_typed) \<noteq> sent submitted_typed"
    by (simp add: submitted_typed_def order_scenario_defs)
  show ?thesis using submit_only_new_names [OF h] h by simp
qed

text \<open>C23. Every completion of the list fetch, successful or not, ends in an unhandled ReferenceError: over any sequence of events, the unhandled rejections are exactly one per completed load, because the finally block calls the undeclared setIsLoading (Orders.jsx line 28).\<close>

theorem every_load_throws:
  "unhandled (order_run uid evs f) =
     unhandled f @ replicate (length (filter is_load evs)) (ReferenceError ''setIsLoading is not defined'')"
  by (induction evs arbitrary: f) (simp_all add: unhandled_order_step replicate_append_same)

text \<open>C24. A failed list fetch is invisible to the user: apart from the unhandled rejections the browser logs, any run of the form ends in the same state as the run with the failed loads left out. No message, toast or state change reports the failure (the catch block throws before it can), so the duplicate check silently keeps working on whatever list it had.\<close>

theorem failed_loads_unseen:
  "(order_run uid evs f)\<lparr>unhandled := []\<rparr> =
     (order_run uid (filter (\<lambda>ev. \<not> failed_load ev) evs) f)\<lparr>unhandled := []\<rparr>"
  by (rule order_run_forget) (rule refl)

text \<open>C25. The duplicate check compares the first label of each known name with the whole typed name: a typed name containing a dot is never flagged, even when it spells an existing subdomain in full.\<close>

theorem dotted_name_bypasses_check:
  assumes "CHR ''.'' \<in> set s"
  shows "\<not> does_exist xs s"
proof -
  have no_dot: "CHR ''.'' \<notin> set (to_lower_case (split_first (CHR ''.'') n))" for n
    by (simp add: dot_in_lower)
  have dot: "CHR ''.'' \<in> set (to_lower_case s)" using assms by (simp add: dot_in_lower)
  show ?thesis unfolding does_exist_def list_ex_iff
  proof
    assume "\<exists>x\<in>set xs. to_lower_case (split_first (CHR ''.'') (sd_name x)) = to_lower_case s"
    then obtain x :: subdomain where "to_lower_case (split_first (CHR ''.'') (sd_name x)) = to_lower_case s"
      by blast
    with no_dot dot show False by metis
  qed
qed

theorem dotted_name_bypasses_check_witness:
  "does_exist [blog_subdomain] ''Blog'' \<and> CHR ''.'' \<in> set ''blog.dovuchcha.uz''
   \<and> \<not> does_exist [blog_subdomain] ''blog.dovuchcha.uz''"
proof -
  have d: "CHR ''.'' \<in> set ''blog.dovuchcha.uz''" by simp
  have e: "does_exist [blog_subdomain] ''Blog''" by code_simp
  show ?thesis using dotted_name_bypasses_check [OF d, of "[blog_subdomain]"] d e by simp
qed

text \<open>C29. A rejected creation shows a toast with the detail of the error body, or the default message when the detail is missing or empty, re-enables the button and schedules no redirect.\<close>

theorem rejected_submission_reports:
  assumes "in_flight f \<noteq> None"
  shows "let f' = order_step uid (SubmitDone (Rejected d)) f in
     toasts f' = toasts f @ [case d of Some m \<Rightarrow> if m = [] then ''Failed to create subdomain.'' else m
                                  | None \<Rightarrow> ''Failed to create subdomain.'']
     \<and> \<not> is_submitting f' \<and> redirect_scheduled f' = redirect_scheduled f \<and> sent f' = sent f"
  using assms by (simp add: submission_failed_def rejection_message_def split: option.split)

theorem rejected_submission_reports_witness:
  "in_flight submitted_shop \<noteq> None \<and>
   (let f' = order_step (Some 7) (SubmitDone (Rejected (Some ''Name already taken''))) submitted_shop in
     toasts f' = toasts submitted_shop @ [''Name already taken'']
     \<and> \<not> is_submitting f' \<and> redirect_scheduled f' = redirect_scheduled submitted_shop
     \<and> sent f' = sent submitted_shop)"
proof -
  have i: "in_flight submitted_shop \<noteq> None" by (simp add: order_scenario_defs)
  show ?thesis
    using rejected_submission_reports [OF i, of "Some 7" "Some ''Name already taken''"] i
    by (simp add: Let_def)
qed

text \<open>C30. A successful creation re-enables the button, shows no toast, and the scheduled timeout navigates home.\<close>

theorem created_redirects_home:
  assumes "in_flight f \<noteq> None"
  shows "let f' = order_run uid [SubmitDone Created, RedirectFires] f in
     navigated_home f' \<and> \<not> is_submitting f' \<and> toasts f' = toasts f"
  using assms by simp

theorem created_redirects_home_witness:
  "in_flight submitted_shop \<noteq> None \<and>
   (let f' = order_run (Some 7) [SubmitDone Created, RedirectFires] submitted_shop in
     navigated_home f' \<and> \<not> is_submitting f' \<and> toasts f' = toasts submitted_shop)"
proof -
  have i: "in_flight submitted_shop \<noteq> None" by (simp add: order_scenario_defs)
  show ?thesis using created_redirects_home [OF i, of "Some 7"] i by (simp add: Let_def)
qed

text \<open>C31. The duplicate check ignores the case of the typed name.\<close>

theorem does_exist_case_insensitive: "does_exist xs (to_lower_case s) = does_exist xs s"
  by (simp add: does_exist_def)

text \<open>C39. Every submission completes: from every reachable form state, the response of the POST, whatever the server answers or when the network fails, re-enables the submit button (the finally block resets isSubmitting) and leaves no request in flight.\<close>

theorem submission_always_completes:
  assumes "order_reach uid f"
  shows "\<not> is_submitting (order_step uid (SubmitDone r) f) \<and> in_flight (order_step uid (SubmitDone r) f) = None"
  using order_reach_inv [OF assms] by (cases "in_flight f") (simp_all add: order_inv_def)

theorem submission_always_completes_witness:
  "order_reach (Some 7) submitted_shop
   \<and> \<not> is_submitting (order_step (Some 7) (SubmitDone (Rejected None)) submitted_shop)
   \<and> in_flight (order_step (Some 7) (SubmitDone (Rejected None)) submitted_shop) = None"
proof -
  have r: "order_reach (Some 7) submitted_shop"
    unfolding submitted_shop_def by (rule order_reach_run [OF order_reach.init])
  show ?thesis using submission_always_completes [OF r, of "Rejected None"] r by simp
qed

text \<open>C40. The body of every POST the form has sent is JSON text that reads back as an object of exactly four members in this order: name and purpose as the non-empty strings typed, user as the session's id (a number, or null before a session is decoded) and status as the string pending. Quotes, backslashes or control characters typed into the fields stay inside their string.\<close>

theorem sent_bodies_are_typed_json:
  assumes "order_reach uid f" and "r \<in> set (sent f)"
  shows "parse_object (request_text r) =
      Some [(''name'', JStr (op_name (req_body r))),
            (''user'', (case uid of None \<Rightarrow> JNull | Some n \<Rightarrow> JNum n)),
            (''purpose'', JStr (op_purpose (req_body r))), (''status'', JStr ''pending'')]
    \<and> op_name (req_body r) \<noteq> [] \<and> op_purpose (req_body r) \<noteq> []"
proof -
  have wf: "well_formed_request uid r"
    using order_reach_inv [OF assms(1)] assms(2) by (auto simp: order_inv_def list_all_iff)
  have "parse_object (request_text r) =
      (case payload_json (req_body r) of JObj kvs \<Rightarrow> Some kvs | _ \<Rightarrow> None)"
    using parse_object_stringify [OF payload_json_flat [of "req_body r"]]
    by (simp add: request_text_def payload_json_def)
  with wf show ?thesis by (simp add: well_formed_request_def payload_json_def)
qed

theorem sent_bodies_are_typed_json_witness:
  "order_reach (Some 7) submitted_shop \<and> hd (sent submitted_shop) \<in> set (sent submitted_shop)
   \<and> parse_object (request_text (hd (sent submitted_shop))) =
      Some [(''name'', JStr ''shop''), (''user'', JNum 7), (''purpose'', JStr ''Online store''),
            (''status'', JStr ''pending'')]"
proof -
  have r: "order_reach (Some 7) submitted_shop"
    unfolding submitted_shop_def by (rule order_reach_run [OF order_reach.init])
  have s: "sent submitted_shop = [create_request (make_payload (Some 7) submitted_typed)]"
    by (simp add: order_scenario_defs submitted_typed_def)
  have m: "hd (sent submitted_shop) \<in> set (sent submitted_shop)" by (simp add: s)
  have b: "req_body (hd (sent submitted_shop)) = make_payload (Some 7) submitted_typed"
    by (simp add: s create_request_def)
  show ?thesis
    using sent_bodies_are_typed_json [OF r m] r m b
    by (simp add: make_payload_def submitted_typed_def order_scenario_defs)
qed

end
