(* ===== verification/Pages.thy ===== *)
theory Pages
  imports Routing Table Profile OrderForm
begin

text \<open>
  The application assembled. \<open>AuthProvider\<close> hands its state and handlers to the pages
  through the React context (AuthContext.jsx lines 97--113): \<open>provider_value\<close> is
  the value the pages read, and \<open>context_setter\<close> the raw state setters the value also
  exposes (\<open>setIsAuthenticated\<close>, \<open>setUsername\<close>, \<open>setEmail\<close>, \<open>setAccessToken\<close>;
  no page calls them). \<open>App\<close> reads \<open>isAuthenticated\<close> from the context to route
  (App.jsx lines 8--23); Home (\<^verbatim>\<open>pages/Home.jsx\<close>) renders its header, its order link
  and its list from the context, its fetch state and the table's search state
  (\<open>home_page\<close>); Profile renders from the context and its own fetch state
  (\<open>profile_route_view\<close>). \<^verbatim>\<open>main.jsx\<close> loads the page: React mounts the tree and
  runs the provider's effect, twice under StrictMode (\<open>page_load\<close>).

  The lemmas show that the pages depend on the session only through the context value,
  that routing through the context is the \<open>app_view\<close> of \<open>Routing\<close>, what Home shows
  before and after a logout, that an exposed setter can break the session invariant
  that the handlers keep, and that the id the context hands out is stable while the
  session lasts (C7).
\<close>

section \<open>The context value\<close>

record auth_context =
  ctx_authenticated :: bool
  ctx_username :: string
  ctx_email :: string
  ctx_id :: "int option"
  ctx_access_token :: string
  ctx_loading :: bool

definition provider_value :: "world \<Rightarrow> auth_context" where
  "provider_value w =
     \<lparr>ctx_authenticated = is_authenticated w, ctx_username = username w, ctx_email = email w,
      ctx_id = user_id w, ctx_access_token = access_token w, ctx_loading = is_loading w\<rparr>"

datatype context_setter =
    SetIsAuthenticated bool
  | SetUsername string
  | SetEmail string
  | SetAccessToken string

definition apply_setter :: "context_setter \<Rightarrow> world \<Rightarrow> world" where
  "apply_setter s w =
     (case s of
        SetIsAuthenticated b \<Rightarrow> w\<lparr>is_authenticated := b\<rparr>
      | SetUsername u \<Rightarrow> w\<lparr>username := u\<rparr>
      | SetEmail m \<Rightarrow> w\<lparr>email := m\<rparr>
      | SetAccessToken a \<Rightarrow> w\<lparr>access_token := a\<rparr>)"

section \<open>The pages read from the context\<close>

text \<open>\<open>App\<close>: \<open>const { isAuthenticated } = useContext(AuthContext)\<close>, then the routes.\<close>

definition app_page :: "auth_context \<Rightarrow> string \<Rightarrow> page" where
  "app_page ctx path = app_route (ctx_authenticated ctx) path"

text \<open>Home (lines 7--102): the login button or the greeting (lines 36--61), the order link
  for a session or the "Login to Order" button otherwise (lines 69--89), and the loading
  line, the error or the table of the fetched list (lines 93--99).\<close>

record home_view =
  hv_controls :: home_controls
  hv_order_link :: bool
  hv_screen :: list_screen
  hv_table :: "table_view option"

definition home_page :: "auth_context \<Rightarrow> list_view \<Rightarrow> table_state \<Rightarrow> home_view" where
  "home_page ctx v st =
     \<lparr>hv_controls = home_header (ctx_authenticated ctx) (ctx_username ctx),
      hv_order_link = ctx_authenticated ctx,
      hv_screen = home_screen v,
      hv_table = (case home_screen v of ShowList xs \<Rightarrow> Some (subdomain_table xs st) | _ \<Rightarrow> None)\<rparr>"

text \<open>Profile (lines 8--175) from the context: its effect and the page.\<close>

definition profile_route_view :: "auth_context \<Rightarrow> list_view \<Rightarrow> profile_action \<times> profile_view" where
  "profile_route_view ctx v =
     (profile_effect (ctx_authenticated ctx) (ctx_id ctx),
      profile_page (ctx_username ctx) (ctx_email ctx) v)"

section \<open>Loading the page\<close>

text \<open>main.jsx (lines 9--19): the tree is mounted and the provider's effect runs, once, or
  twice under StrictMode.\<close>

definition page_load :: "env \<Rightarrow> store \<Rightarrow> location \<Rightarrow> world" where
  "page_load e st loc = run e (replicate (mount_limit e) Mount) (boot st loc)"

section \<open>Lemmas\<close>

lemma app_view_context:
  "app_view w = (if provider_renders w then Some (app_page (provider_value w) (pathname (location w))) else None)"
  by (simp add: app_view_def app_page_def provider_value_def)

lemma reach_page_load: "reach e (page_load e st loc)"
  unfolding page_load_def by (rule reach_run [OF reach.boot])

text \<open>After the logout button, Home shows the login buttons and the "Login to Order" button,
  whatever the list and the search.\<close>

lemma home_after_logout:
  assumes "provider_renders w"
  shows "hv_controls (home_page (provider_value (app_step e Logout w)) v st) = LoginButtons
    \<and> \<not> hv_order_link (home_page (provider_value (app_step e Logout w)) v st)"
  using assms
  by (simp add: provider_renders_def home_page_def provider_value_def home_header_def handle_logout_def)

lemma mount_keeps_identity:
  assumes m: "mounted_inv (decode e) w" and nl: "\<not> is_loading w"
  shows "user_id (mount (decode e) w) = user_id w"
proof (cases rule: mount_cases [where w = w and dec = "decode e"])
  case skip then show ?thesis by (simp add: mount_skip)
next
  case (bad_redirect t) then show ?thesis by (simp add: mount_bad_redirect)
next
  case (good_redirect t c)
  with m nl show ?thesis by (simp add: mounted_inv_def truthy_def)
next
  case (bad_stored t) then show ?thesis by (simp add: mount_bad_stored)
next
  case (good_stored t c)
  with m nl have "is_authenticated w" by (auto simp: mounted_inv_def truthy_def)
  with m good_stored have "user_id w = Some (claim_user_id c)"
    by (auto simp: mounted_inv_def session_inv_def identity_matches_def split: option.splits)
  with good_stored show ?thesis by (simp add: mount_good_stored set_identity_def)
qed

text \<open>An authenticated session greets its user by the name decoded from its token, and
  offers the order link.\<close>

lemma home_greets_session_user:
  assumes "reach e w" and "provider_renders w" and "is_authenticated w"
  shows "\<exists>c. decode e (refresh_token w) = Some c
    \<and> hv_controls (home_page (provider_value w) v st) = Greeting (claim_username c)
    \<and> hv_order_link (home_page (provider_value w) v st)"
proof -
  have m: "mounted_inv (decode e) w"
    using reach_world_inv [OF assms(1)] assms(2) by (simp add: world_inv_def provider_renders_def)
  then obtain c where "decode e (refresh_token w) = Some c" "username w = claim_username c"
    using assms(3)
    by (auto simp: mounted_inv_def session_inv_def identity_matches_def split: option.splits)
  with assms(3) show ?thesis
    by (simp add: home_page_def provider_value_def home_header_def)
qed

text \<open>The first render of a fetched list shows every subdomain in the table.\<close>

lemma home_first_table:
  assumes "xs \<noteq> []"
  shows "hv_table (home_page ctx (fetch_subdomains_done (ListOk xs) list_view_init) table_init) =
    Some (Rows (map (\<lambda>s. (sd_name s, sd_purpose s, badge_variant (sd_status s))) xs))"
  using assms
  by (simp add: home_page_def home_screen_def list_view_init_def subdomain_table_init)

text \<open>The exposed setters bypass the handlers: a consumer that sets \<open>isAuthenticated\<close>
  on a world without a session leaves a world that violates the session invariant every
  handler keeps.\<close>

lemma setter_breaks_session_inv:
  assumes "\<not> is_authenticated w" and "refresh_token w = []"
  shows "\<not> session_inv dec (apply_setter (SetIsAuthenticated True) w)"
  using assms by (simp add: apply_setter_def session_inv_def)

section \<open>Properties\<close>

text \<open>C7. While the session stays authenticated, no event of the browser changes the user id
  the context hands to the pages: neither an interval, a refresh response, a click, nor the
  second run of the effect under StrictMode, which decodes the stored token again. The
  order form, which reads the id once per submit, therefore sees one id for as long as it
  is mounted (a logout unmounts it through the \<open>/order\<close> guard, a login reloads the page).\<close>

theorem session_identity_stable:
  assumes "reach e w" and "provider_renders w" and "is_authenticated (app_step e ev w)"
  shows "user_id (app_step e ev w) = user_id w"
proof -
  have inv: "world_inv e w" using reach_world_inv [OF assms(1)] .
  have r: "\<not> crashed w" "\<not> is_loading w" using assms(2) by (simp_all add: provider_renders_def)
  with inv have m: "mounted_inv (decode e) w" by (simp add: world_inv_def)
  show ?thesis
  proof (cases ev)
    case Mount
    show ?thesis
    proof (cases "mount_limit e \<le> mounts w")
      case True with Mount show ?thesis by simp
    next
      case False
      with False Mount r mount_keeps_identity [OF m r(2)] show ?thesis by simp
    qed
  next
    case (Response i resp)
    with assms(3) show ?thesis by (cases resp) (auto simp: handle_logout_def split: if_splits)
  qed (use assms(3) in \<open>auto simp: fetch_access_token_def handle_login_redirect_def handle_logout_def split: if_splits\<close>)
qed

theorem session_identity_stable_witness:
  "let e = scenario_env True; w = run e [Mount] (boot stored_T1 home) in
     reach e w \<and> provider_renders w \<and> is_authenticated (app_step e Mount w)
     \<and> user_id (app_step e Mount w) = user_id w"
proof -
  let ?e = "scenario_env True" let ?w = "run ?e [Mount] (boot stored_T1 home)"
  have r: "reach ?e ?w" by (rule reach_run [OF reach.boot])
  have p: "provider_renders ?w" and a: "is_authenticated (app_step ?e Mount ?w)"
    by (simp_all add: mount_defs scenario_defs provider_renders_def mount_limit_def set_identity_def
        fetch_access_token_def setup_token_renewal_def url_param_def)
  show ?thesis using session_identity_stable [OF r p a] r p a by (simp only: Let_def)
qed

end
