(* ===== verification/Spec2Isabelle.thy ===== *)
theory Spec2Isabelle
  imports Pages
begin

text \<open>
  \<^bold>\<open>A verification model of the subdomain client (behzodkhan/subdomain).\<close>

  The repository is a React single-page client. \<^verbatim>\<open>src/src/main.jsx\<close> mounts \<open>App\<close>
  under \<open>StrictMode\<close> inside the \<open>AuthProvider\<close> of
  \<^verbatim>\<open>src/src/contexts/AuthContext.jsx\<close>, the session manager: it reads a refresh token
  from the post-login redirect or from localStorage, decodes the identity claims with
  \<open>jwtDecode\<close>, posts the token to the refresh endpoint for an access token, re-posts it
  from a \<open>setInterval\<close>, and logs out by clearing state and storage. It renders its
  children only once \<open>isLoading\<close> is false. \<^verbatim>\<open>App.jsx\<close> routes between Home, the
  order page (guarded by \<open>isAuthenticated\<close>) and Profile. The pages read the session
  through the context: Home and Profile fetch subdomain lists, Profile for the session's
  user id; the order form (\<^verbatim>\<open>components/Orders.jsx\<close>) checks a typed name against the
  existing ones and posts a creation request with the session's user id; the table
  (\<^verbatim>\<open>components/subdomain-table.jsx\<close>) filters the list by a search term.

  \<^bold>\<open>Theories\<close>, each a group of definitions in the order of its source file.
  \<^item> \<open>Prelude\<close>: the JavaScript builtins the client calls (\<open>toLowerCase\<close> on the
    Latin-1 range, \<open>split('.')[0]\<close>, \<open>includes\<close>, truthiness of a string or null,
    the decimal text of a status code or an integer), removal by index, and the lemma collections
    \<open>js_simps\<close> (evaluation of the builtins) and \<open>world_simps\<close> (frame equations of
    the handlers).
  \<^item> \<open>Uri\<close>: \<open>encodeURIComponent\<close> and its inverse \<open>decodeURIComponent\<close> (UTF-8
    percent escapes), with the lemma that decoding inverts encoding.
  \<^item> \<open>Json\<close>: \<open>JSON.stringify\<close> (\<open>json_stringify\<close>, with \<open>QuoteJSONString\<close> as
    \<open>quote_json_string\<close>) and a reader of JSON objects with scalar members
    (\<open>parse_object\<close>); its string scanner and member loop are \<open>function\<close>s terminating
    by the length of the input, and the reader inverts \<open>json_stringify\<close> on every such
    object (\<open>parse_object_stringify\<close>).
  \<^item> \<open>Session\<close>: \<open>AuthProvider\<close>. Its \<open>useState\<close> hooks are the record
    \<open>auth_state\<close>; the browser it writes (localStorage as a map, the address, armed
    intervals, refresh requests in flight, a pending navigation, whether the tree crashed,
    how often the effect ran) extends it to \<open>world\<close>. One definition per handler:
    \<open>handle_redirect\<close>, \<open>fetch_access_token\<close> (the POST) and
    \<open>fetch_access_token_done\<close> (its completion), \<open>setup_token_renewal\<close>,
    \<open>handle_logout\<close>, \<open>restore_session\<close> and \<open>auth_effect\<close> (the
    \<open>useEffect\<close>), \<open>handle_login_redirect\<close>. An exception of \<open>jwtDecode\<close> is the
    \<open>Inl\<close> branch of the effect's result, carrying the world at the throw point;
    \<open>mount\<close> turns it into a crashed tree. \<open>app_step\<close> is one event of the browser
    (the effect runs, an interval fires, a response arrives in any order, a button is
    clicked) and \<open>reach\<close> the worlds reachable from a page load (\<open>boot\<close>).
    \<open>jwtDecode\<close> is the parameter \<open>decode\<close> of the environment \<open>env\<close>, with the
    page origin and whether StrictMode runs the effect twice (\<open>mount_limit\<close>).
  \<^item> \<open>Listing\<close>: the subdomain record, the fetch completion Home and Profile share
    (\<open>fetch_subdomains_done\<close>) and what Home renders.
  \<^item> \<open>Table\<close>: the search term as the state \<open>table_state\<close> with its handler
    \<open>set_search_term\<close>, the search filter, the status badge and the rendered table
    (\<open>subdomain_table\<close>).
  \<^item> \<open>Profile\<close>: the redirect-or-fetch effect, the status colour, the list screen and
    the page with its user card and logout button (\<open>profile_page\<close>).
  \<^item> \<open>OrderForm\<close>: the order form as the record \<open>order_form\<close> with the step function
    \<open>order_step\<close> (typing, the list arriving, submit, the POST completing, the redirect
    timeout) and the reachable form states \<open>order_reach\<close>; the fetch of existing names
    with its try/catch/finally (\<open>order_fetch_try\<close>, \<open>order_fetch_done\<close>); the
    body text of the POST (\<open>request_text\<close>, \<open>JSON.stringify\<close> of \<open>payload_json\<close>);
    what the form renders (\<open>order_form_view\<close>) and the page of
    \<^verbatim>\<open>pages/OrderSubmit.jsx\<close> around it (\<open>order_submit_page\<close>).
  \<^item> \<open>Routing\<close>: the routes of \<open>App\<close> with React Router's case-insensitive matching
    and the render gate of the provider (\<open>app_view\<close>).
  \<^item> \<open>Pages\<close>: the application assembled. The context value of the provider
    (\<open>provider_value\<close>) is the interface the pages read, with the raw setters it also
    exposes (\<open>apply_setter\<close>). \<open>App\<close> routes from the context (\<open>app_page\<close>, equal to
    \<open>app_view\<close>), Home renders from the context, its fetch and the table's search
    (\<open>home_page\<close>), Profile from the context and its fetch (\<open>profile_route_view\<close>),
    and \<^verbatim>\<open>main.jsx\<close> loads the page (\<open>page_load\<close>, the effect run once or twice).
  \<^item> this theory: the properties that span components.
  The components meet through the session context: a page reads \<open>is_authenticated\<close>
  and \<open>user_id\<close> of a reachable \<open>world\<close>, and the order form is a function of that
  user id (\<open>order_step uid\<close>), so the cross-component theorems combine the invariant of
  \<open>Session\<close> with that of the component.

  \<^bold>\<open>What is proved.\<close> The invariant \<open>world_inv\<close> holds in every reachable world, by
  rule induction over \<open>reach\<close> with one preservation lemma per event. It has two parts.
  \<open>resource_inv\<close> says that intervals are bounded by effect runs, that requests in flight
  post tokens of armed intervals, and that every armed token decodes. \<open>mounted_inv\<close>
  holds the data-model invariant \<open>session_inv\<close> of spec section 3 and the facts about the
  loading phase. From it: consistency of the session (C1), refinement of the three-phase
  machine of spec section 4.1 through \<open>phase_of\<close> (C2), the effect, renewal and logout
  (C3--C6, C14, C15), a logout that survives the next page load (C11), one interval
  per page load outside StrictMode (C8), tokens posted
  (C16), and the login redirect round trip (C17). While a session stays authenticated,
  no event changes the user id the context hands to the pages (C7, in \<open>Pages\<close>); this
  is why the order form can be modelled with one fixed \<open>uid\<close>. \<open>order_inv\<close> holds in every reachable
  form state. Only well-formed requests are sent (C20), at most one at a time (C21), and only
  for names the duplicate check passes (C22). Across components, the order page is shown
  only to a consistent authenticated session (C18, with \<open>/order\<close> guarded for every
  spelling, C26). Order requests carry the decoded user id (C19), and Profile fetches that
  user's list (C27). The search narrows as the term grows and ignores case (C32, C33);
  the list pages always leave the loading state (C34, C35). Liveness: after the mount
  effect from any reachable world the provider is no longer loading unless it crashed
  (C38), and every response to a POST re-enables the order form (C39). The body of every
  request sent is JSON that reads back as an object of the four typed members (C40).

  \<^bold>\<open>Where the code departs from the spec or its intent\<close>:
  \<^item> StrictMode arms two intervals (C9), and logout cancels none (C10).
  \<^item> A refresh response arriving after logout is still accepted: the completion of C5
    applies whatever the session's state.
  \<^item> \<open>isLoading\<close> is cleared before the access token arrives (C12).
  \<^item> A malformed redirect token is persisted and crashes this load and every later one
    (C13); no event ever renders a page on that load or any later one (C28).
  \<^item> Every completion of the order form's fetch throws an unhandled \<open>ReferenceError\<close>
    (C23), and a failed fetch is invisible to the user: the form ends as if it had not
    happened (C24).
  \<^item> A typed name with a dot passes the duplicate check (C25).
  \<^item> No request carries the access token (C20).
  \<^item> The badge and the colour of a status disagree exactly on active or inactive written
    in another case (C37).
  \<^item> The context exposes raw state setters to its consumers, which the spec calls
    read-only; one call can break the session invariant (\<open>setter_breaks_session_inv\<close>).

  \<^bold>\<open>Not modelled.\<close>
  \<^item> Styling and markup beyond the branches a page renders.
  \<^item> A refresh answer without an \<open>access\<close> field: the model takes the body of a
    successful refresh to carry one (\<open>Refreshed a\<close>); without it the code would store the
    string "undefined" in localStorage.
  \<^item> The account service and the REST server: their answers are inputs
    (\<open>refresh_response\<close>, \<open>list_response\<close>, \<open>create_response\<close>).
  \<^item> The signature check of the JWT, which the client does not perform.
  \<^item> Time: the 240000 ms period and the 100 ms redirect delay are not modelled.
    Intervals, responses and timeouts fire in any order, any number of times. This
    over-approximates the real schedule, so every invariant holds a fortiori for it. No fuel
    or bound is needed: every definition is total, structurally recursive except the two
    loops of the JSON reader, whose termination is proved by the length of the input. The
    client itself has no loop but list traversals (\<open>some\<close>, \<open>filter\<close>, \<open>map\<close>),
    which are structural, so no property of the client is a termination property.
  \<^item> JSON values the client never sends: the reader reads objects of strings, integers,
    booleans and null, which is all \<open>JSON.stringify(payload)\<close> produces; response
    bodies are read by \<open>response.json()\<close> into the inputs named above.
  \<^item> JavaScript strings: they are Isabelle strings, whose characters are the code points
    0--255.
\<close>

text \<open>A page load at the order path, for the scenarios below.\<close>

definition order_location :: location where
  "order_location = \<lparr>pathname = ''/order'', search = []\<rparr>"

section \<open>Lemmas shared by the cross-component properties\<close>

lemma rendered_session:
  assumes "reach e w" and "provider_renders w"
  shows "mounted_inv (decode e) w"
  using reach_world_inv [OF assms(1)] assms(2)
  by (simp add: world_inv_def provider_renders_def)

lemma authenticated_identity:
  assumes "mounted_inv dec w" and "is_authenticated w"
  obtains c where "dec (refresh_token w) = Some c" and "user_id w = Some (claim_user_id c)"
    and "storage w ''refresh_token'' = Some (refresh_token w)"
  using assms by (auto simp: mounted_inv_def session_inv_def identity_matches_def split: option.splits)

lemmas order_world_defs = mount_defs scenario_defs order_location_def app_view_def app_route_def
  route_matches_def provider_renders_def

text \<open>The logout button of the Profile page (Profile.jsx line 66) is the context's
  \<open>handleLogout\<close>: once pressed, the page shows no identity and its effect, which
  depends on \<open>isAuthenticated\<close>, sends the visitor back to the home page.\<close>

lemma profile_logout_sends_home:
  assumes "provider_renders w"
  shows "let w' = app_step e Logout w in
     profile_effect (is_authenticated w') (user_id w') = NavigateHome
     \<and> pv_username (profile_page (username w') (email w') v) = []
     \<and> pv_email (profile_page (username w') (email w') v) = []
     \<and> storage w' ''refresh_token'' = None"
  using assms by (simp add: provider_renders_def profile_effect_def profile_page_def handle_logout_def)

text \<open>A world from which every event leads back into a set of two worlds never leaves it;
  a malformed token freezes the page load that way.\<close>

lemma run_frozen:
  assumes "\<And>ev. app_step e ev w0 \<in> {w0, w1}" and "\<And>ev. app_step e ev w1 = w1"
  shows "w \<in> {w0, w1} \<Longrightarrow> run e evs w \<in> {w0, w1}"
proof (induction evs arbitrary: w)
  case (Cons ev evs)
  then have "app_step e ev w \<in> {w0, w1}" using assms by auto
  with Cons.IH show ?case by simp
qed simp

lemma bad_token_mount:
  assumes "decode e t = None" and "t \<noteq> []"
    and "url_param (search loc) ''refresh_token'' = Some t \<or>
         (url_param (search loc) ''refresh_token'' = None \<and> st ''refresh_token'' = Some t)"
  shows "crashed (mount (decode e) (boot st loc)) \<and> timers (mount (decode e) (boot st loc)) = []
    \<and> inflight (mount (decode e) (boot st loc)) = []
    \<and> storage (mount (decode e) (boot st loc)) ''refresh_token'' = Some t
    \<and> 0 < mounts (mount (decode e) (boot st loc))"
  using assms(3)
proof
  assume "url_param (search loc) ''refresh_token'' = Some t"
  with assms(1,2) show ?thesis by (simp add: mount_bad_redirect boot_def)
next
  assume "url_param (search loc) ''refresh_token'' = None \<and> st ''refresh_token'' = Some t"
  with assms(1,2) show ?thesis by (simp add: mount_bad_stored boot_def)
qed

section \<open>Properties across components\<close>

text \<open>C18. Routing and session together: whenever the app renders the order page in a reachable world, the session is authenticated, its refresh token is the stored one and the identity fields are the claims of that token.\<close>

theorem order_page_requires_session:
  assumes "reach e w" and "app_view w = Some OrderPage"
  shows "is_authenticated w \<and> storage w ''refresh_token'' = Some (refresh_token w)
    \<and> identity_matches (decode e) w"
proof -
  from assms(2) have r: "provider_renders w" and a: "is_authenticated w"
    by (auto simp: app_view_def app_route_def split: if_splits)
  from rendered_session [OF assms(1) r] a show ?thesis
    by (simp add: mounted_inv_def session_inv_def)
qed

theorem order_page_requires_session_witness:
  "reach (scenario_env False) (run (scenario_env False) [Mount] (boot stored_T1 order_location))
   \<and> app_view (run (scenario_env False) [Mount] (boot stored_T1 order_location)) = Some OrderPage
   \<and> is_authenticated (run (scenario_env False) [Mount] (boot stored_T1 order_location))
   \<and> storage (run (scenario_env False) [Mount] (boot stored_T1 order_location)) ''refresh_token''
       = Some (refresh_token (run (scenario_env False) [Mount] (boot stored_T1 order_location)))
   \<and> identity_matches (decode (scenario_env False))
       (run (scenario_env False) [Mount] (boot stored_T1 order_location))"
proof -
  let ?w = "run (scenario_env False) [Mount] (boot stored_T1 order_location)"
  have r: "reach (scenario_env False) ?w" by (rule reach_run [OF reach.boot])
  have v: "app_view ?w = Some OrderPage" by (simp add: order_world_defs)
  show ?thesis using order_page_requires_session [OF r v] r v by simp
qed

text \<open>C19. Every creation request the order form sends while it is shown carries as user the id decoded from the session token, never null.\<close>

theorem order_requests_carry_session_id:
  assumes "reach e w" and "app_view w = Some OrderPage" and "order_reach (user_id w) f"
  shows "\<exists>c. decode e (refresh_token w) = Some c
    \<and> list_all (\<lambda>r. op_user (req_body r) = Some (claim_user_id c)) (sent f)"
proof -
  from assms(2) have r: "provider_renders w" and a: "is_authenticated w"
    by (auto simp: app_view_def app_route_def split: if_splits)
  obtain c where c: "decode e (refresh_token w) = Some c" "user_id w = Some (claim_user_id c)"
    using authenticated_identity [OF rendered_session [OF assms(1) r] a] by blast
  have "list_all (well_formed_request (user_id w)) (sent f)"
    using order_reach_inv [OF assms(3)] by (simp add: order_inv_def)
  with c show ?thesis by (auto simp: well_formed_request_def list_all_iff)
qed

theorem order_requests_carry_session_id_witness:
  "let w = run (scenario_env False) [Mount] (boot stored_T1 order_location) in
   reach (scenario_env False) w \<and> app_view w = Some OrderPage \<and> order_reach (user_id w) submitted_shop
   \<and> (\<exists>c. decode (scenario_env False) (refresh_token w) = Some c
        \<and> list_all (\<lambda>r. op_user (req_body r) = Some (claim_user_id c)) (sent submitted_shop))"
proof -
  let ?w = "run (scenario_env False) [Mount] (boot stored_T1 order_location)"
  have r: "reach (scenario_env False) ?w" by (rule reach_run [OF reach.boot])
  have v: "app_view ?w = Some OrderPage" by (simp add: order_world_defs)
  have u: "user_id ?w = Some 7" by (simp add: order_world_defs)
  have o: "order_reach (user_id ?w) submitted_shop"
    unfolding u submitted_shop_def by (rule order_reach_run [OF order_reach.init])
  show ?thesis using order_requests_carry_session_id [OF r v o] r v o by (simp add: Let_def)
qed

text \<open>C27. When the provider renders an authenticated session, the Profile page fetches the subdomains of the user id decoded from the session token.\<close>

theorem profile_fetches_session_user:
  assumes "reach e w" and "provider_renders w" and "is_authenticated w"
  shows "\<exists>c. decode e (refresh_token w) = Some c
    \<and> profile_effect (is_authenticated w) (user_id w) =
        FetchOwn (''https://behzod.pythonanywhere.com/api/subdomains/users/''
                  @ id_text (Some (claim_user_id c)) @ ''/'')"
proof -
  obtain c where c: "decode e (refresh_token w) = Some c" "user_id w = Some (claim_user_id c)"
    using authenticated_identity [OF rendered_session [OF assms(1,2)] assms(3)] by blast
  with assms(3) show ?thesis by (simp add: profile_effect_def)
qed

theorem profile_fetches_session_user_witness:
  "let w = run (scenario_env False) [Mount] (boot stored_T1 home) in
   reach (scenario_env False) w \<and> provider_renders w \<and> is_authenticated w
   \<and> (\<exists>c. decode (scenario_env False) (refresh_token w) = Some c
        \<and> profile_effect (is_authenticated w) (user_id w) =
            FetchOwn (''https://behzod.pythonanywhere.com/api/subdomains/users/''
                      @ id_text (Some (claim_user_id c)) @ ''/''))"
proof -
  let ?w = "run (scenario_env False) [Mount] (boot stored_T1 home)"
  have r: "reach (scenario_env False) ?w" by (rule reach_run [OF reach.boot])
  have p: "provider_renders ?w" and a: "is_authenticated ?w" by (simp_all add: order_world_defs)
  show ?thesis using profile_fetches_session_user [OF r p a] r p a by (simp add: Let_def)
qed

text \<open>C28. A malformed token locks the user out. On a page load that carries one, in the address or stored with no redirect parameter, no sequence of events ever renders a page, StrictMode's second run of the effect included. Once the effect has run the token stays in localStorage, so every later load without a redirect parameter satisfies the same hypothesis and is locked out as well.\<close>

theorem malformed_token_locks_out:
  assumes "decode e t = None" and "t \<noteq> []"
    and "url_param (search loc) ''refresh_token'' = Some t \<or>
         (url_param (search loc) ''refresh_token'' = None \<and> st ''refresh_token'' = Some t)"
  shows "app_view (run e evs (boot st loc)) = None
    \<and> (0 < mounts (run e evs (boot st loc)) \<longrightarrow> storage (run e evs (boot st loc)) ''refresh_token'' = Some t)"
proof -
  let ?w0 = "boot st loc" let ?w1 = "mount (decode e) ?w0"
  have m: "crashed ?w1" "timers ?w1 = []" "inflight ?w1 = []"
    "storage ?w1 ''refresh_token'' = Some t" "0 < mounts ?w1"
    using bad_token_mount [of e t loc st, OF assms] by simp_all
  have s0: "app_step e ev ?w0 \<in> {?w0, ?w1}" for ev
    by (cases ev) (simp_all add: boot_def mount_limit_def)
  have s1: "app_step e ev ?w1 = ?w1" for ev
    using m by (cases ev) simp_all
  have "run e evs ?w0 \<in> {?w0, ?w1}" by (rule run_frozen [OF s0 s1]) simp
  with m show ?thesis by (auto simp: app_view_def provider_renders_def boot_def)
qed

theorem malformed_token_locks_out_witness:
  "decode (scenario_env True) ''bad'' = None \<and> ''bad'' \<noteq> []
   \<and> url_param (search \<lparr>pathname = ''/'', search = [(''refresh_token'', ''bad'')]\<rparr>) ''refresh_token'' = Some ''bad''
   \<and> app_view (run (scenario_env True) [Mount, Mount, Tick 0, Logout, LoginClick]
        (boot Map.empty \<lparr>pathname = ''/'', search = [(''refresh_token'', ''bad'')]\<rparr>)) = None
   \<and> 0 < mounts (run (scenario_env True) [Mount, Mount, Tick 0, Logout, LoginClick]
          (boot Map.empty \<lparr>pathname = ''/'', search = [(''refresh_token'', ''bad'')]\<rparr>))
   \<and> storage (run (scenario_env True) [Mount, Mount, Tick 0, Logout, LoginClick]
          (boot Map.empty \<lparr>pathname = ''/'', search = [(''refresh_token'', ''bad'')]\<rparr>)) ''refresh_token''
          = Some ''bad''"
proof -
  let ?evs = "[Mount, Mount, Tick 0, Logout, LoginClick]"
  let ?loc = "\<lparr>pathname = ''/'', search = [(''refresh_token'', ''bad'')]\<rparr>"
  have h: "decode (scenario_env True) ''bad'' = None" by (simp add: scenario_defs)
  have n: "''bad'' \<noteq> []" by simp
  have u: "url_param (search ?loc) ''refresh_token'' = Some ''bad''"
    by (simp add: url_param_def)
  have m: "0 < mounts (run (scenario_env True) ?evs (boot Map.empty ?loc))"
    using h u by (simp add: mount_bad_redirect boot_def mount_limit_def scenario_defs)
  from malformed_token_locks_out [OF h n disjI1 [OF u], of ?evs Map.empty] m
  show ?thesis using h n u by blast
qed

text \<open>C36. The table badge and the profile colour agree on every lower-case status: active is success and green, inactive is destructive and red, anything else is a warning and yellow or grey.\<close>

theorem status_views_agree_on_lowercase:
  assumes "to_lower_case s = s"
  shows "(badge_variant s = Success \<longleftrightarrow> get_status_color s = ''text-green-600'')
    \<and> (badge_variant s = Destructive \<longleftrightarrow> get_status_color s = ''text-red-600'')
    \<and> (badge_variant s = Warning \<longleftrightarrow> get_status_color s \<in> {''text-yellow-600'', ''text-gray-600''})"
  using assms by (simp add: badge_variant_def get_status_color_def)

theorem status_views_agree_on_lowercase_witness:
  "to_lower_case ''inactive'' = ''inactive''
   \<and> (badge_variant ''inactive'' = Success \<longleftrightarrow> get_status_color ''inactive'' = ''text-green-600'')
   \<and> (badge_variant ''inactive'' = Destructive \<longleftrightarrow> get_status_color ''inactive'' = ''text-red-600'')
   \<and> (badge_variant ''inactive'' = Warning \<longleftrightarrow>
        get_status_color ''inactive'' \<in> {''text-yellow-600'', ''text-gray-600''})"
proof -
  have h: "to_lower_case ''inactive'' = ''inactive''" by code_simp
  show ?thesis using status_views_agree_on_lowercase [OF h] h by simp
qed

text \<open>C37. The table badge and the profile colour disagree exactly on the statuses that are active or inactive up to case but not written in lower case: the table compares the status as it is (subdomain-table.jsx line 69), the profile lower-cases it first (Profile.jsx line 41).\<close>

theorem status_views_disagree_exactly:
  "((badge_variant s = Success \<longleftrightarrow> get_status_color s = ''text-green-600'')
     \<and> (badge_variant s = Destructive \<longleftrightarrow> get_status_color s = ''text-red-600''))
   \<longleftrightarrow> \<not> (to_lower_case s \<in> {''active'', ''inactive''} \<and> s \<noteq> to_lower_case s)"
proof -
  have la: "to_lower_case ''active'' = ''active''" "to_lower_case ''inactive'' = ''inactive''"
    by code_simp+
  show ?thesis
    by (cases "s = ''active'' \<or> s = ''inactive''")
      (auto simp: badge_variant_def get_status_color_def Let_def la)
qed

end
